theory Spec2Isabelle
  imports Complex_Main "HOL-Library.Word" "HOL-Library.Sublist"
begin

section \<open>Go values used by drivers/storage/rbd/utils/utils.go\<close>

text \<open>
  A Go \<open>string\<close> is a sequence of bytes and is modelled by \<open>string\<close> (a list of 8-bit
  characters). A slice is modelled by the list of its elements (the nil slice is the empty
  list). A pointer \<open>*T\<close> is modelled by the value it points to, with \<open>None\<close> for \<open>nil\<close>:
  Go strings are immutable and the module never writes through the pointers it hands out,
  so a pointer is determined by its pointee. Dereferencing \<open>nil\<close> is a run-time panic,
  which is the outcome \<open>Panic\<close>.
\<close>

type_synonym 'a ptr = "'a option"

datatype 'a outcome = Panic | Return 'a

section \<open>GetVolumeID\<close>

text \<open>
  \<^verbatim>\<open>volumeID := fmt.Sprintf("%s.%s", *pool, *image); return &volumeID\<close>
\<close>

fun GetVolumeID :: "string ptr \<Rightarrow> string ptr \<Rightarrow> string ptr outcome" where
  "GetVolumeID (Some pool) (Some img) = Return (Some (pool @ ''.'' @ img))"
| "GetVolumeID _ _ = Panic"

section \<open>ConvStrArrayToPtr\<close>

text \<open>
  \<^verbatim>\<open>ptrArr := make([]*string, len(strArr))\<close> is a slice of \<open>len(strArr)\<close> nil pointers;
  the loop \<^verbatim>\<open>for i := range strArr { ptrArr[i] = &strArr[i] }\<close> runs over the indices
  \<open>0, ..., len(strArr) - 1\<close> in order.
\<close>

fun ConvStrArrayToPtr_loop :: "string list \<Rightarrow> nat list \<Rightarrow> string ptr list \<Rightarrow> string ptr list" where
  "ConvStrArrayToPtr_loop strArr [] ptrArr = ptrArr"
| "ConvStrArrayToPtr_loop strArr (i # rest) ptrArr =
     ConvStrArrayToPtr_loop strArr rest (ptrArr[i := Some (strArr ! i)])"

definition ConvStrArrayToPtr :: "string list \<Rightarrow> string ptr list" where
  "ConvStrArrayToPtr strArr =
     ConvStrArrayToPtr_loop strArr [0..<length strArr] (replicate (length strArr) None)"

section \<open>Errors, commands and the process-execution primitive\<close>

text \<open>
  The value \<open>(*exec.ExitError).Sys()\<close> holds: a \<open>syscall.WaitStatus\<close>, represented by
  the integer its method \<open>ExitStatus()\<close> returns, or a value of another type.
\<close>

datatype sys = WaitStatus int | OtherSys

text \<open>
  Error values: an \<open>*exec.ExitError\<close> with its \<open>Sys()\<close> and \<open>Stderr\<close>; any other error
  of the libraries os/exec, encoding/json and net; \<open>goof.New\<close> and \<open>goof.Newf\<close> with
  the formatted message; \<open>goof.WithError\<close> with its message and inner error.
\<close>

datatype error =
    ExitError sys string
  | OtherError string
  | GoofNew string
  | GoofWithError string error

record Cmd =
  Args :: "string list"

definition Command :: "string \<Rightarrow> string list \<Rightarrow> Cmd" where
  "Command name arg = \<lparr>Args = name # arg\<rparr>"

text \<open>
  \<open>cmd.Output()\<close> runs the command to completion and returns its standard output and
  an error (nil on exit status 0). The primitive is a parameter of every operation that
  runs a tool. The debug record written through \<open>ctx\<close> before each run is not modelled.
\<close>

type_synonym exec = "Cmd \<Rightarrow> string \<times> error option"

definition radosCmd :: string where "radosCmd = ''rados''"
definition rbdCmd :: string where "rbdCmd = ''rbd''"
definition formatOpt :: string where "formatOpt = ''--format''"
definition jsonArg :: string where "jsonArg = ''json''"
definition poolOpt :: string where "poolOpt = ''--pool''"

section \<open>Decoded data\<close>

text \<open>
  \<open>int64\<close> fields are 64-bit words (read as signed by \<open>sint\<close>). A Go map is modelled
  by the list of its key-value pairs in the order in which a \<open>range\<close> loop visits them, an
  order that Go leaves unspecified; \<open>m[k]\<close> is \<open>map_of m k\<close> and \<open>len(m)\<close> counts the keys.
\<close>

record RBDInfo =
  Name :: string
  Size :: "64 word"
  Objects :: "64 word"
  Order :: "64 word"
  ObjectSize :: "64 word"
  BlockNamePrefix :: string
  Format :: "64 word"
  Features :: "string list"
  Pool :: string

record rbdMappedEntry =
  Device :: string
  Name :: string
  Pool :: string
  Snap :: string

type_synonym ('k, 'v) gomap = "('k \<times> 'v) list"

definition len_map :: "('k, 'v) gomap \<Rightarrow> nat" where
  "len_map m = length (remdups (map fst m))"

text \<open>
  The values \<open>json.Unmarshal\<close> stores into an \<open>interface{}\<close>: nil, bool, float64, string,
  \<open>[]interface{}\<close> and \<open>map[string]interface{}\<close>.
\<close>

datatype json =
    JNull
  | JBool bool
  | JNumber real
  | JString string
  | JArray "json list"
  | JObject "(string, json) gomap"

section \<open>GetRadosPools\<close>

text \<open>
  \<open>bufio.Scanner\<close> with its default split function \<open>ScanLines\<close>, over the bytes not yet
  consumed. A call of \<open>Scan()\<close> on exhausted input returns false. Otherwise the token is
  the text up to the next newline (or to the end of input when there is none), without
  the newline and without one trailing carriage return. A line of
  \<open>MaxScanTokenSize\<close> bytes or more does not fit the buffer: \<open>Scan()\<close> returns false
  (the error \<open>ErrTooLong\<close> is kept in the scanner, which the caller never reads).
\<close>

definition MaxScanTokenSize :: nat where
  "MaxScanTokenSize = 64 * 1024"

definition dropCR :: "string \<Rightarrow> string" where
  "dropCR data = (if data \<noteq> [] \<and> last data = CHR 0x0D then butlast data else data)"

definition Scan :: "string \<Rightarrow> (string \<times> string) option" where
  "Scan data =
     (if data = [] then None
      else let line = takeWhile (\<lambda>c. c \<noteq> CHR 0x0A) data;
               rest = dropWhile (\<lambda>c. c \<noteq> CHR 0x0A) data
           in if MaxScanTokenSize \<le> length line then None
              else Some (dropCR line, drop 1 rest))"

text \<open>
  \<^verbatim>\<open>for scanner.Scan() { pools = append(pools, scanner.Text()) }\<close>
\<close>

function GetRadosPools_loop :: "string \<Rightarrow> string list \<Rightarrow> string list" where
  "GetRadosPools_loop data pools =
     (case Scan data of
        None \<Rightarrow> pools
      | Some (text, data') \<Rightarrow> GetRadosPools_loop data' (pools @ [text]))"
  by pat_completeness auto
termination
proof (relation "measure (\<lambda>(data, pools). length data)")
  show "wf (measure (\<lambda>(data, pools). length data))" by simp
next
  fix data :: string and pools :: "string list" and x2 x y
  assume "Scan data = Some x2" and "(x, y) = x2"
  then have "data \<noteq> []" and "y = drop 1 (dropWhile (\<lambda>c. c \<noteq> CHR 0x0A) data)"
    by (auto simp: Scan_def Let_def split: if_splits)
  moreover have "length (dropWhile (\<lambda>c. c \<noteq> CHR 0x0A) data) \<le> length data"
    by (rule length_dropWhile_le)
  ultimately have "length y < length data"
    by (cases data) (auto split: if_splits)
  then show "((y, pools @ [x]), (data, pools)) \<in> measure (\<lambda>(data, pools). length data)"
    by simp
qed

declare GetRadosPools_loop.simps [simp del]

definition GetRadosPools :: "exec \<Rightarrow> string ptr list \<times> error option" where
  "GetRadosPools Output =
     (case Output (Command radosCmd [''lspools'']) of
        (out, Some err) \<Rightarrow>
          (case err of
             ExitError s stderr \<Rightarrow> ([], Some (GoofNew (''Unable to get pools: '' @ stderr)))
           | _ \<Rightarrow> ([], Some (GoofWithError ''Unable to get pools'' err)))
      | (out, None) \<Rightarrow> (ConvStrArrayToPtr (GetRadosPools_loop out []), None))"

section \<open>GetRBDInfo\<close>

text \<open>
  \<open>json.Unmarshal(out, info)\<close> into a fresh \<open>RBDInfo\<close> is a parameter: it yields the
  decoding error or the decoded value.
\<close>

definition GetRBDInfo ::
  "exec \<Rightarrow> (string \<Rightarrow> error + RBDInfo) \<Rightarrow> string ptr \<Rightarrow> string ptr
   \<Rightarrow> (RBDInfo ptr \<times> error option) outcome" where
  "GetRBDInfo Output Unmarshal pool name =
     (case (pool, name) of
        (Some p, Some n) \<Rightarrow>
          (case Output (Command rbdCmd [''info'', ''-p'', p, n, formatOpt, jsonArg]) of
             (out, Some err) \<Rightarrow>
               (case err of
                  ExitError s stderr \<Rightarrow>
                    (case s of
                       WaitStatus status \<Rightarrow>
                         if status = 2 then Return (None, None)
                         else Return (None, Some (GoofNew (''Unable to get rbd info: '' @ stderr)))
                     | OtherSys \<Rightarrow>
                         Return (None, Some (GoofNew (''Unable to get rbd info: '' @ stderr))))
                | _ \<Rightarrow> Return (None, Some (GoofWithError ''Unable to get rbd info'' err)))
           | (out, None) \<Rightarrow>
               (case Unmarshal out of
                  Inl err \<Rightarrow> Return (None, Some (GoofWithError ''Unable to parse rbd info'' err))
                | Inr info \<Rightarrow> Return (Some (info\<lparr>RBDInfo.Pool := p\<rparr>), None)))
      | _ \<Rightarrow> Panic)"

section \<open>GetMappedRBDs\<close>

text \<open>
  \<^verbatim>\<open>for _, mapped := range rbdMap { volumeID := GetVolumeID(&mapped.Pool, &mapped.Name);
  devMap[*volumeID] = mapped.Device }\<close>. The entries are pointers: taking the address of
  a field of a nil entry panics. The result map \<open>devMap\<close> is only written, and is modelled
  by a partial function. The decoder parameter yields the decoded Go map as the list of its
  pairs in the order in which the \<open>range\<close> loop visits them; this order is chosen by the
  Go runtime and is independent of the order of the tool's output.
\<close>

fun GetMappedRBDs_loop ::
  "(string, rbdMappedEntry ptr) gomap \<Rightarrow> (string \<rightharpoonup> string) \<Rightarrow> (string \<rightharpoonup> string) outcome" where
  "GetMappedRBDs_loop [] devMap = Return devMap"
| "GetMappedRBDs_loop ((key, mapped) # rest) devMap =
     (case mapped of
        None \<Rightarrow> Panic
      | Some entry \<Rightarrow>
          (case GetVolumeID (Some (rbdMappedEntry.Pool entry)) (Some (rbdMappedEntry.Name entry)) of
             Return (Some volumeID) \<Rightarrow>
               GetMappedRBDs_loop rest (devMap(volumeID \<mapsto> Device entry))
           | _ \<Rightarrow> Panic))"

definition GetMappedRBDs ::
  "exec \<Rightarrow> (string \<Rightarrow> error + (string, rbdMappedEntry ptr) gomap)
   \<Rightarrow> ((string \<rightharpoonup> string) \<times> error option) outcome" where
  "GetMappedRBDs Output Unmarshal =
     (case Output (Command rbdCmd [''showmapped'', formatOpt, jsonArg]) of
        (out, Some err) \<Rightarrow>
          (case err of
             ExitError s stderr \<Rightarrow> Return (Map.empty, Some (GoofNew (''Unable to get RBD map: '' @ stderr)))
           | _ \<Rightarrow> Return (Map.empty, Some (GoofWithError ''Unable to get RBD map'' err)))
      | (out, None) \<Rightarrow>
          (case Unmarshal out of
             Inl err \<Rightarrow> Return (Map.empty, Some (GoofWithError ''Unable to parse rbd showmapped'' err))
           | Inr rbdMap \<Rightarrow>
               (case GetMappedRBDs_loop rbdMap Map.empty of
                  Panic \<Rightarrow> Panic
                | Return devMap \<Rightarrow> Return (devMap, None))))"

section \<open>GetRBDStatus and RBDHasWatchers\<close>

definition GetRBDStatus ::
  "exec \<Rightarrow> (string \<Rightarrow> error + (string, json) gomap) \<Rightarrow> string ptr \<Rightarrow> string ptr
   \<Rightarrow> ((string, json) gomap \<times> error option) outcome" where
  "GetRBDStatus Output Unmarshal pool img =
     (case (pool, img) of
        (Some p, Some i) \<Rightarrow>
          (case Output (Command rbdCmd [''status'', poolOpt, p, i, formatOpt, jsonArg]) of
             (out, Some err) \<Rightarrow>
               (case err of
                  ExitError s stderr \<Rightarrow>
                    Return ([], Some (GoofNew (''Unable to get RBD status: '' @ stderr)))
                | _ \<Rightarrow> Return ([], Some (GoofWithError ''Unable to get RBD status'' err)))
           | (out, None) \<Rightarrow>
               (case Unmarshal out of
                  Inl err \<Rightarrow> Return ([], Some (GoofWithError ''Unable to parse rbd status'' err))
                | Inr watcherMap \<Rightarrow> Return (watcherMap, None)))
      | _ \<Rightarrow> Panic)"

text \<open>
  The type switch on \<open>m["watchers"]\<close> (a missing key reads as the nil interface value,
  which falls to the default case).
\<close>

definition RBDHasWatchers_switch :: "(string, json) gomap \<Rightarrow> bool \<times> error option" where
  "RBDHasWatchers_switch m =
     (case map_of m ''watchers'' of
        Some (JObject v) \<Rightarrow> (len_map v > 0, None)
      | Some (JArray v) \<Rightarrow> (length v > 0, None)
      | _ \<Rightarrow> (False, Some (GoofNew ''Unable to parse RBD status watchers'')))"

definition RBDHasWatchers ::
  "exec \<Rightarrow> (string \<Rightarrow> error + (string, json) gomap) \<Rightarrow> string ptr \<Rightarrow> string ptr
   \<Rightarrow> (bool \<times> error option) outcome" where
  "RBDHasWatchers Output Unmarshal pool img =
     (case GetRBDStatus Output Unmarshal pool img of
        Panic \<Rightarrow> Panic
      | Return (m, Some err) \<Rightarrow> Return (False, Some err)
      | Return (m, None) \<Rightarrow> Return (RBDHasWatchers_switch m))"

section \<open>The regular expression of hasPort\<close>

text \<open>
  Regular expressions of Go's \<open>regexp/syntax\<close>, restricted to the operators the module's
  pattern needs. A character class is a list of ranges \<open>lo-hi\<close>; \<open>.\<close> is
  \<open>OpAnyCharNotNL\<close>. Matching is by derivatives: \<open>deriv c r\<close> matches the rest of every
  text of \<open>r\<close> that starts with \<open>c\<close>.
\<close>

datatype regexp =
    OpNoMatch
  | OpEmptyMatch
  | OpLiteral char
  | OpCharClass "(char \<times> char) list"
  | OpAnyCharNotNL
  | OpConcat regexp regexp
  | OpAlternate regexp regexp
  | OpStar regexp
  | OpPlus regexp

definition inClass :: "(char \<times> char) list \<Rightarrow> char \<Rightarrow> bool" where
  "inClass ranges c =
     list_ex (\<lambda>(lo, hi). (of_char lo :: nat) \<le> of_char c \<and> (of_char c :: nat) \<le> of_char hi) ranges"

fun nullable :: "regexp \<Rightarrow> bool" where
  "nullable OpNoMatch = False"
| "nullable OpEmptyMatch = True"
| "nullable (OpLiteral c) = False"
| "nullable (OpCharClass ranges) = False"
| "nullable OpAnyCharNotNL = False"
| "nullable (OpConcat r s) = (nullable r \<and> nullable s)"
| "nullable (OpAlternate r s) = (nullable r \<or> nullable s)"
| "nullable (OpStar r) = True"
| "nullable (OpPlus r) = nullable r"

fun deriv :: "char \<Rightarrow> regexp \<Rightarrow> regexp" where
  "deriv c OpNoMatch = OpNoMatch"
| "deriv c OpEmptyMatch = OpNoMatch"
| "deriv c (OpLiteral d) = (if c = d then OpEmptyMatch else OpNoMatch)"
| "deriv c (OpCharClass ranges) = (if inClass ranges c then OpEmptyMatch else OpNoMatch)"
| "deriv c OpAnyCharNotNL = (if c \<noteq> CHR 0x0A then OpEmptyMatch else OpNoMatch)"
| "deriv c (OpConcat r s) =
     (if nullable r then OpAlternate (OpConcat (deriv c r) s) (deriv c s)
      else OpConcat (deriv c r) s)"
| "deriv c (OpAlternate r s) = OpAlternate (deriv c r) (deriv c s)"
| "deriv c (OpStar r) = OpConcat (deriv c r) (OpStar r)"
| "deriv c (OpPlus r) = OpConcat (deriv c r) (OpStar r)"

fun matches :: "regexp \<Rightarrow> string \<Rightarrow> bool" where
  "matches r [] = nullable r"
| "matches r (c # s) = matches (deriv c r) s"

text \<open>
  \<^verbatim>\<open>var ipv6wPortRX = regexp.MustCompile(`^\[.*\]:\d+$`)\<close>. The pattern is anchored at
  both ends (\<open>^\<close> and \<open>$\<close> without the multi-line flag), so \<open>MatchString\<close>, which looks
  for a match anywhere in the text, succeeds exactly when the whole text matches the part
  between the anchors. \<open>ipv6wPortRX\<close> is that part and \<open>MatchString\<close> matches whole texts.
  \<open>\d\<close> is the class \<open>[0-9]\<close>.
\<close>

definition ipv6wPortRX :: regexp where
  "ipv6wPortRX =
     OpConcat (OpLiteral CHR ''['')
       (OpConcat (OpStar OpAnyCharNotNL)
         (OpConcat (OpLiteral CHR '']'')
           (OpConcat (OpLiteral CHR '':'')
             (OpPlus (OpCharClass [(CHR ''0'', CHR ''9'')])))))"

definition MatchString :: "regexp \<Rightarrow> string \<Rightarrow> bool" where
  "MatchString re s = matches re s"

section \<open>hasPort\<close>

text \<open>
  \<open>strings.HasPrefix\<close>, \<open>strings.Contains\<close> and \<open>strings.Trim\<close> (which removes every
  leading and trailing character of the cutset).
\<close>

definition HasPrefix :: "string \<Rightarrow> string \<Rightarrow> bool" where
  "HasPrefix s pre = prefix pre s"

definition Contains :: "string \<Rightarrow> string \<Rightarrow> bool" where
  "Contains s substr = sublist substr s"

definition Trim :: "string \<Rightarrow> string \<Rightarrow> string" where
  "Trim s cutset =
     rev (dropWhile (\<lambda>c. c \<in> set cutset) (rev (dropWhile (\<lambda>c. c \<in> set cutset) s)))"

definition hasPort :: "string \<Rightarrow> bool" where
  "hasPort addr =
     (if HasPrefix addr ''['' then MatchString ipv6wPortRX addr
      else Contains addr '':'')"

section \<open>ParseMonitorAddresses\<close>

text \<open>
  A \<open>net.IP\<close> is a byte slice. The functions of package \<open>net\<close> are parameters:
  \<open>SplitHostPort\<close> yields an error or host and port, \<open>ParseIP\<close> yields \<open>None\<close> for a nil
  result, \<open>LookupIP\<close> yields an error or the resolver's addresses.
\<close>

type_synonym IP = "8 word list"

record net =
  SplitHostPort :: "string \<Rightarrow> error + (string \<times> string)"
  ParseIP :: "string \<Rightarrow> IP option"
  LookupIP :: "string \<Rightarrow> error + IP list"

text \<open>
  The first half of the loop body: \<^verbatim>\<open>host = mon\<close>, the split when \<open>hasPort(mon)\<close>
  (an error returns from the function), and the removal of brackets.
\<close>

definition monHost :: "net \<Rightarrow> string \<Rightarrow> error + string" where
  "monHost n mon =
     (case (if hasPort mon
            then (case SplitHostPort n mon of
                    Inl err \<Rightarrow> Inl err
                  | Inr (host, port) \<Rightarrow> Inr host)
            else Inr mon) of
        Inl err \<Rightarrow> Inl err
      | Inr host \<Rightarrow> Inr (if HasPrefix host ''['' then Trim host ''[]'' else host))"

fun ParseMonitorAddresses_loop :: "net \<Rightarrow> string list \<Rightarrow> IP list \<Rightarrow> IP list \<times> error option" where
  "ParseMonitorAddresses_loop n [] monIps = (monIps, None)"
| "ParseMonitorAddresses_loop n (mon # rest) monIps =
     (case monHost n mon of
        Inl err \<Rightarrow> ([], Some err)
      | Inr host \<Rightarrow>
          (case ParseIP n host of
             Some ip \<Rightarrow> ParseMonitorAddresses_loop n rest (monIps @ [ip])
           | None \<Rightarrow>
               (case LookupIP n host of
                  Inl err \<Rightarrow> ([], Some err)
                | Inr ips \<Rightarrow>
                    ParseMonitorAddresses_loop n rest
                      (if length ips > 0 then monIps @ ips else monIps))))"

definition ParseMonitorAddresses :: "net \<Rightarrow> string list \<Rightarrow> IP list \<times> error option" where
  "ParseMonitorAddresses n addrs = ParseMonitorAddresses_loop n addrs []"

section \<open>The language of a regular expression\<close>

text \<open>
  The texts a regular expression denotes, against which the derivative matcher is proved
  correct.
\<close>

definition lang_conc :: "string set \<Rightarrow> string set \<Rightarrow> string set" where
  "lang_conc A B = {u @ v | u v. u \<in> A \<and> v \<in> B}"

inductive_set lang_star :: "string set \<Rightarrow> string set" for A :: "string set" where
  lang_star_nil: "[] \<in> lang_star A"
| lang_star_app: "u \<in> A \<Longrightarrow> v \<in> lang_star A \<Longrightarrow> u @ v \<in> lang_star A"

fun lang :: "regexp \<Rightarrow> string set" where
  "lang OpNoMatch = {}"
| "lang OpEmptyMatch = {[]}"
| "lang (OpLiteral c) = {[c]}"
| "lang (OpCharClass ranges) = {[c] | c. inClass ranges c}"
| "lang OpAnyCharNotNL = {[c] | c. c \<noteq> CHR 0x0A}"
| "lang (OpConcat r s) = lang_conc (lang r) (lang s)"
| "lang (OpAlternate r s) = lang r \<union> lang s"
| "lang (OpStar r) = lang_star (lang r)"
| "lang (OpPlus r) = lang_conc (lang r) (lang_star (lang r))"

section \<open>Concrete runs\<close>

text \<open>
  Tool runs and decoded payloads at which the properties below are evaluated.
\<close>

definition info_exit2 :: exec where
  "info_exit2 cmd =
     ([], Some (ExitError (WaitStatus 2)
        ''rbd: error opening image vol1: (2) No such file or directory''))"

definition Unmarshal_info_eof :: "string \<Rightarrow> error + RBDInfo" where
  "Unmarshal_info_eof out = Inl (OtherError ''unexpected end of JSON input'')"

definition lspools_abc :: exec where
  "lspools_abc cmd =
     ([CHR ''a'', CHR 0x0A, CHR ''b'', CHR 0x0A, CHR 0x0A, CHR ''c'', CHR 0x0A], None)"

definition status_ok :: exec where
  "status_ok cmd = (''{'' @ [CHR 0x22] @ ''watchers'' @ [CHR 0x22] @ '':[{}]}'', None)"

definition status_exit1 :: exec where
  "status_exit1 cmd = ([], Some (ExitError (WaitStatus 1) ''rbd: error opening image''))"

definition Unmarshal_status_watched :: "string \<Rightarrow> error + (string, json) gomap" where
  "Unmarshal_status_watched out = Inr [(''watchers'', JArray [JObject []])]"

text \<open>
  The standard output of \<open>rbd showmapped --format json\<close> for two mappings whose pool and
  image names format to the same volume ID \<open>a.b.c\<close> (\<open>quoted\<close> puts a text between
  double quotes).
\<close>

definition quoted :: "string \<Rightarrow> string" where
  "quoted s = CHR 0x22 # s @ [CHR 0x22]"

definition showmapped_text :: string where
  "showmapped_text =
     ''{'' @ quoted ''0'' @ '':{'' @ quoted ''pool'' @ '':'' @ quoted ''a.b'' @ '','' @
       quoted ''name'' @ '':'' @ quoted ''c'' @ '','' @ quoted ''snap'' @ '':'' @ quoted ''-'' @
       '','' @ quoted ''device'' @ '':'' @ quoted ''/dev/rbd0'' @ ''},'' @
     quoted ''1'' @ '':{'' @ quoted ''pool'' @ '':'' @ quoted ''a'' @ '','' @
       quoted ''name'' @ '':'' @ quoted ''b.c'' @ '','' @ quoted ''snap'' @ '':'' @ quoted ''-'' @
       '','' @ quoted ''device'' @ '':'' @ quoted ''/dev/rbd1'' @ ''}}''"

definition showmapped_ok :: exec where
  "showmapped_ok cmd = (showmapped_text, None)"

definition entry0 :: rbdMappedEntry where
  "entry0 = \<lparr>Device = ''/dev/rbd0'', Name = ''c'', Pool = ''a.b'', Snap = ''-''\<rparr>"

definition entry1 :: rbdMappedEntry where
  "entry1 = \<lparr>Device = ''/dev/rbd1'', Name = ''b.c'', Pool = ''a'', Snap = ''-''\<rparr>"

text \<open>
  The decoding of \<open>showmapped_text\<close> is the Go map with the keys \<open>0\<close> and \<open>1\<close>. A \<open>range\<close>
  loop may visit it in either order; the two decoders below give the same map, listed in
  the order of the tool's table (\<open>0\<close>, then \<open>1\<close>) and in the other order.
\<close>

definition Unmarshal_mapped_collide :: "string \<Rightarrow> error + (string, rbdMappedEntry ptr) gomap" where
  "Unmarshal_mapped_collide out =
     (if out = showmapped_text then Inr [(''0'', Some entry0), (''1'', Some entry1)]
      else Inl (OtherError ''unexpected end of JSON input''))"

definition Unmarshal_mapped_collide_swapped ::
  "string \<Rightarrow> error + (string, rbdMappedEntry ptr) gomap" where
  "Unmarshal_mapped_collide_swapped out =
     (if out = showmapped_text then Inr [(''1'', Some entry1), (''0'', Some entry0)]
      else Inl (OtherError ''unexpected end of JSON input''))"

text \<open>
  The results of the Go library on the address literals of the examples:
  \<open>net.SplitHostPort("10.0.0.1:6789")\<close> is \<open>("10.0.0.1", "6789")\<close>,
  \<open>net.SplitHostPort("[::1]:6789")\<close> is \<open>("::1", "6789")\<close>, \<open>net.ParseIP("10.0.0.1")\<close> is the
  16-byte form of 10.0.0.1 and \<open>net.ParseIP("::1")\<close> is the IPv6 loopback address. The
  environment \<open>literal_net\<close> holds these four results; it is used at these literals and at
  a host name whose lookup fails, and stands for no other behaviour of the library.
\<close>

definition ip4_10_0_0_1 :: IP where
  "ip4_10_0_0_1 = [0, 0, 0, 0, 0, 0, 0, 0, 0, 0, 0xff, 0xff, 10, 0, 0, 1]"

definition ip6_loopback :: IP where
  "ip6_loopback = [0, 0, 0, 0, 0, 0, 0, 0, 0, 0, 0, 0, 0, 0, 0, 1]"

definition literal_net :: net where
  "literal_net = \<lparr>
     SplitHostPort = (\<lambda>hostport.
       if hostport = ''10.0.0.1:6789'' then Inr (''10.0.0.1'', ''6789'')
       else if hostport = ''[::1]:6789'' then Inr (''::1'', ''6789'')
       else Inl (OtherError ''missing port in address'')),
     ParseIP = (\<lambda>s.
       if s = ''10.0.0.1'' then Some ip4_10_0_0_1
       else if s = ''::1'' then Some ip6_loopback
       else None),
     LookupIP = (\<lambda>host. Inl (OtherError ''no such host'')) \<rparr>"

section \<open>Properties of ConvStrArrayToPtr\<close>

lemma ConvStrArrayToPtr_loop_length:
  "length (ConvStrArrayToPtr_loop strArr is ptrArr) = length ptrArr"
  by (induction "is" arbitrary: ptrArr) simp_all

lemma ConvStrArrayToPtr_loop_nth:
  assumes "j < length ptrArr"
  shows "ConvStrArrayToPtr_loop strArr is ptrArr ! j =
         (if j \<in> set is then Some (strArr ! j) else ptrArr ! j)"
  using assms
proof (induction "is" arbitrary: ptrArr)
  case Nil
  then show ?case by simp
next
  case (Cons i rest)
  have "j < length (ptrArr[i := Some (strArr ! i)])"
    using Cons.prems by simp
  from Cons.IH [OF this] show ?case
    using Cons.prems by (auto simp: nth_list_update)
qed

text \<open>
  Claim C9. For every input slice of strings, ConvStrArrayToPtr returns a slice of
  pointers of exactly the same length, and for every index \<open>i\<close> of the input the i-th
  pointer is non-nil and points to the i-th input string.
\<close>

theorem ConvStrArrayToPtr_pointwise:
  "length (ConvStrArrayToPtr strArr) = length strArr \<and>
   (\<forall>i < length strArr. ConvStrArrayToPtr strArr ! i = Some (strArr ! i))"
  by (simp add: ConvStrArrayToPtr_def ConvStrArrayToPtr_loop_length ConvStrArrayToPtr_loop_nth)

theorem ConvStrArrayToPtr_pointwise_witness:
  "length (ConvStrArrayToPtr [''rbd'', ''data'']) = 2 \<and>
   ConvStrArrayToPtr [''rbd'', ''data''] ! 0 = Some ''rbd'' \<and>
   ConvStrArrayToPtr [''rbd'', ''data''] ! 1 = Some ''data''"
  using ConvStrArrayToPtr_pointwise [of "[''rbd'', ''data'']"] by simp

section \<open>Properties of GetVolumeID\<close>

lemma dot_split_unique:
  assumes "p1 @ CHR ''.'' # i1 = p2 @ CHR ''.'' # i2"
    and "CHR ''.'' \<notin> set p1" and "CHR ''.'' \<notin> set p2"
  shows "p1 = p2 \<and> i1 = i2"
proof -
  have "takeWhile (\<lambda>c. c \<noteq> CHR ''.'') (p1 @ CHR ''.'' # i1) = p1"
    using assms(2) by (simp add: takeWhile_append)
  moreover have "takeWhile (\<lambda>c. c \<noteq> CHR ''.'') (p2 @ CHR ''.'' # i2) = p2"
    using assms(3) by (simp add: takeWhile_append)
  ultimately have "p1 = p2" using assms(1) by simp
  with assms(1) show ?thesis by simp
qed

text \<open>
  Claim C7. For non-nil arguments GetVolumeID returns a pointer to the string
  \<open>pool + "." + image\<close>, and on pairs in which neither component contains the
  separator character \<open>.\<close> it is injective: two distinct pairs never produce the same volume ID.
\<close>

theorem GetVolumeID_format_injective:
  "GetVolumeID (Some pool) (Some img) = Return (Some (pool @ ''.'' @ img)) \<and>
   (CHR ''.'' \<notin> set pool \<and> CHR ''.'' \<notin> set img \<and>
    CHR ''.'' \<notin> set pool' \<and> CHR ''.'' \<notin> set img' \<and>
    (pool, img) \<noteq> (pool', img')
    \<longrightarrow> GetVolumeID (Some pool) (Some img) \<noteq> GetVolumeID (Some pool') (Some img'))"
  using dot_split_unique [of pool img pool' img'] by auto

theorem GetVolumeID_format_injective_witness:
  "CHR ''.'' \<notin> set ''rbd'' \<and> CHR ''.'' \<notin> set ''vol1'' \<and> CHR ''.'' \<notin> set ''vol2'' \<and>
   (''rbd'', ''vol1'') \<noteq> (''rbd'', ''vol2'') \<and>
   GetVolumeID (Some ''rbd'') (Some ''vol1'') = Return (Some ''rbd.vol1'') \<and>
   GetVolumeID (Some ''rbd'') (Some ''vol1'') \<noteq> GetVolumeID (Some ''rbd'') (Some ''vol2'')"
  using GetVolumeID_format_injective [of "''rbd''" "''vol1''" "''rbd''" "''vol2''"] by simp

section \<open>Properties of GetRBDInfo\<close>

text \<open>
  Claim C1. When the run of \<open>rbd info -p pool name --format json\<close> ends with exit
  status 2, GetRBDInfo returns a nil image detail together with a nil error, whatever the
  pool and image names (in particular for non-empty ones), the captured error stream and
  the decoder.
\<close>

theorem GetRBDInfo_exit2_not_found:
  assumes "Output (Command rbdCmd [''info'', ''-p'', pool, name, formatOpt, jsonArg]) =
             (out, Some (ExitError (WaitStatus 2) stderr))"
  shows "GetRBDInfo Output Unmarshal (Some pool) (Some name) = Return (None, None)"
  using assms by (simp add: GetRBDInfo_def)

theorem GetRBDInfo_exit2_not_found_witness:
  "info_exit2 (Command rbdCmd [''info'', ''-p'', ''rbd'', ''vol1'', formatOpt, jsonArg]) =
     ([], Some (ExitError (WaitStatus 2)
        ''rbd: error opening image vol1: (2) No such file or directory'')) \<and>
   GetRBDInfo info_exit2 Unmarshal_info_eof (Some ''rbd'') (Some ''vol1'') = Return (None, None)"
  using GetRBDInfo_exit2_not_found [of info_exit2 "''rbd''" "''vol1''" "[]"
      "''rbd: error opening image vol1: (2) No such file or directory''" Unmarshal_info_eof]
  by (simp add: info_exit2_def)

section \<open>Properties of RBDHasWatchers\<close>

lemma len_map_pos: "0 < len_map v \<longleftrightarrow> v \<noteq> []"
  by (cases v) (auto simp: len_map_def)

text \<open>
  Claim C2. RBDHasWatchers applies the type switch to the status document \<open>m\<close> that
  GetRBDStatus returns. For every \<open>m\<close>: if \<open>m["watchers"]\<close> is a string-keyed mapping the
  result is whether the mapping is non-empty, with no error; if it is a sequence the
  result is whether the sequence is non-empty, with no error; in every other case (key
  absent, null, any other shape) the result is false with the error "Unable to parse RBD
  status watchers". The five documents of the specification give false, true, false, true
  and the error.
\<close>

theorem RBDHasWatchers_by_shape:
  "(GetRBDStatus Output Unmarshal pool img = Return (m, None) \<longrightarrow>
      RBDHasWatchers Output Unmarshal pool img = Return (RBDHasWatchers_switch m)) \<and>
   (\<forall>v. map_of m ''watchers'' = Some (JObject v) \<longrightarrow>
      RBDHasWatchers_switch m = (v \<noteq> [], None)) \<and>
   (\<forall>v. map_of m ''watchers'' = Some (JArray v) \<longrightarrow>
      RBDHasWatchers_switch m = (v \<noteq> [], None)) \<and>
   ((\<forall>v. map_of m ''watchers'' \<noteq> Some (JObject v)) \<and>
    (\<forall>v. map_of m ''watchers'' \<noteq> Some (JArray v)) \<longrightarrow>
      RBDHasWatchers_switch m = (False, Some (GoofNew ''Unable to parse RBD status watchers''))) \<and>
   RBDHasWatchers_switch [(''watchers'', JObject [])] = (False, None) \<and>
   RBDHasWatchers_switch [(''watchers'', JObject [(''w1'', JObject [])])] = (True, None) \<and>
   RBDHasWatchers_switch [(''watchers'', JArray [])] = (False, None) \<and>
   RBDHasWatchers_switch [(''watchers'', JArray [JObject []])] = (True, None) \<and>
   RBDHasWatchers_switch [] = (False, Some (GoofNew ''Unable to parse RBD status watchers''))"
proof -
  have run: "GetRBDStatus Output Unmarshal pool img = Return (m, None) \<longrightarrow>
      RBDHasWatchers Output Unmarshal pool img = Return (RBDHasWatchers_switch m)"
    by (simp add: RBDHasWatchers_def)
  have obj: "\<forall>v. map_of m ''watchers'' = Some (JObject v) \<longrightarrow>
      RBDHasWatchers_switch m = (v \<noteq> [], None)"
    by (simp add: RBDHasWatchers_switch_def len_map_pos)
  have arr: "\<forall>v. map_of m ''watchers'' = Some (JArray v) \<longrightarrow>
      RBDHasWatchers_switch m = (v \<noteq> [], None)"
    by (simp add: RBDHasWatchers_switch_def)
  have other: "(\<forall>v. map_of m ''watchers'' \<noteq> Some (JObject v)) \<and>
    (\<forall>v. map_of m ''watchers'' \<noteq> Some (JArray v)) \<longrightarrow>
      RBDHasWatchers_switch m = (False, Some (GoofNew ''Unable to parse RBD status watchers''))"
    by (simp add: RBDHasWatchers_switch_def split: option.splits json.splits)
  have ex: "RBDHasWatchers_switch [(''watchers'', JObject [])] = (False, None)"
    "RBDHasWatchers_switch [(''watchers'', JObject [(''w1'', JObject [])])] = (True, None)"
    "RBDHasWatchers_switch [(''watchers'', JArray [])] = (False, None)"
    "RBDHasWatchers_switch [(''watchers'', JArray [JObject []])] = (True, None)"
    "RBDHasWatchers_switch [] = (False, Some (GoofNew ''Unable to parse RBD status watchers''))"
    by (simp_all add: RBDHasWatchers_switch_def len_map_pos)
  from run obj arr other ex show ?thesis by (intro conjI)
qed

theorem RBDHasWatchers_by_shape_witness:
  "GetRBDStatus status_ok Unmarshal_status_watched (Some ''rbd'') (Some ''vol1'') =
     Return ([(''watchers'', JArray [JObject []])], None) \<and>
   map_of [(''watchers'', JArray [JObject []])] ''watchers'' = Some (JArray [JObject []]) \<and>
   RBDHasWatchers status_ok Unmarshal_status_watched (Some ''rbd'') (Some ''vol1'') =
     Return (True, None)"
proof -
  have run: "GetRBDStatus status_ok Unmarshal_status_watched (Some ''rbd'') (Some ''vol1'') =
     Return ([(''watchers'', JArray [JObject []])], None)"
    by (simp add: GetRBDStatus_def status_ok_def Unmarshal_status_watched_def)
  have look: "map_of [(''watchers'', JArray [JObject []])] ''watchers'' = Some (JArray [JObject []])"
    by simp
  from RBDHasWatchers_by_shape [of status_ok Unmarshal_status_watched "Some ''rbd''"
      "Some ''vol1''" "[(''watchers'', JArray [JObject []])]"] run look
  show ?thesis by simp
qed

text \<open>
  Claim C10. Whenever RBDHasWatchers returns a non-nil error (the status run failed, its
  payload could not be decoded, or the watchers field has an unrecognised shape), the
  boolean it returns is false.
\<close>

theorem RBDHasWatchers_error_false:
  assumes "RBDHasWatchers Output Unmarshal pool img = Return (b, Some err)"
  shows "b = False"
proof (cases "GetRBDStatus Output Unmarshal pool img")
  case Panic
  with assms show ?thesis by (simp add: RBDHasWatchers_def)
next
  case (Return r)
  obtain m e where r: "r = (m, e)" by (cases r)
  show ?thesis
  proof (cases e)
    case (Some err')
    with assms Return r show ?thesis by (simp add: RBDHasWatchers_def)
  next
    case None
    with assms Return r have "RBDHasWatchers_switch m = (b, Some err)"
      by (simp add: RBDHasWatchers_def)
    then show ?thesis
      by (auto simp: RBDHasWatchers_switch_def split: option.splits json.splits)
  qed
qed

theorem RBDHasWatchers_error_false_witness:
  "RBDHasWatchers status_exit1 Unmarshal_status_watched (Some ''rbd'') (Some ''vol1'') =
     Return (False, Some (GoofNew ''Unable to get RBD status: rbd: error opening image''))"
proof -
  have run: "RBDHasWatchers status_exit1 Unmarshal_status_watched (Some ''rbd'') (Some ''vol1'') =
     Return (False, Some (GoofNew ''Unable to get RBD status: rbd: error opening image''))"
    by (simp add: RBDHasWatchers_def GetRBDStatus_def status_exit1_def)
  from RBDHasWatchers_error_false [OF run] run show ?thesis by simp
qed

section \<open>Properties of GetRadosPools\<close>

lemma Scan_line:
  assumes "CHR 0x0A \<notin> set l" and "length l < MaxScanTokenSize"
  shows "Scan (l @ CHR 0x0A # rest) = Some (dropCR l, rest)"
proof -
  have "takeWhile (\<lambda>c. c \<noteq> CHR 0x0A) (l @ CHR 0x0A # rest) = l"
    using assms(1) by (simp add: takeWhile_append)
  moreover have "dropWhile (\<lambda>c. c \<noteq> CHR 0x0A) (l @ CHR 0x0A # rest) = CHR 0x0A # rest"
    using assms(1) by (simp add: dropWhile_append)
  ultimately show ?thesis
    using assms(2) by (simp add: Scan_def)
qed

lemma dropCR_keep: "l = [] \<or> last l \<noteq> CHR 0x0D \<Longrightarrow> dropCR l = l"
  by (auto simp: dropCR_def)

lemma GetRadosPools_loop_lines:
  assumes "\<forall>l \<in> set lines. CHR 0x0A \<notin> set l \<and> (l = [] \<or> last l \<noteq> CHR 0x0D) \<and>
             length l < MaxScanTokenSize"
  shows "GetRadosPools_loop (concat (map (\<lambda>l. l @ [CHR 0x0A]) lines)) pools = pools @ lines"
  using assms
proof (induction lines arbitrary: pools)
  case Nil
  show ?case
    by (simp add: GetRadosPools_loop.simps [of "[]"] Scan_def)
next
  case (Cons l lines)
  let ?rest = "concat (map (\<lambda>l. l @ [CHR 0x0A]) lines)"
  have l: "CHR 0x0A \<notin> set l" "l = [] \<or> last l \<noteq> CHR 0x0D" "length l < MaxScanTokenSize"
    using Cons.prems by simp_all
  have "Scan (l @ CHR 0x0A # ?rest) = Some (l, ?rest)"
    using Scan_line [OF l(1) l(3)] dropCR_keep [OF l(2)] by simp
  then have "GetRadosPools_loop (l @ CHR 0x0A # ?rest) pools =
             GetRadosPools_loop ?rest (pools @ [l])"
    by (simp add: GetRadosPools_loop.simps [of "l @ CHR 0x0A # ?rest"])
  also have "\<dots> = (pools @ [l]) @ lines"
    using Cons.prems by (intro Cons.IH) simp
  finally show ?case by simp
qed

lemma map_Some_nth:
  "length ps = length xs \<Longrightarrow> (\<forall>i < length xs. ps ! i = Some (xs ! i)) \<Longrightarrow> ps = map Some xs"
  by (simp add: list_eq_iff_nth_eq)

lemma ConvStrArrayToPtr_map: "ConvStrArrayToPtr strArr = map Some strArr"
  by (rule map_Some_nth)
     (simp_all add: ConvStrArrayToPtr_def ConvStrArrayToPtr_loop_length ConvStrArrayToPtr_loop_nth)

lemma lspools_abc_lines:
  "[CHR ''a'', CHR 0x0A, CHR ''b'', CHR 0x0A, CHR 0x0A, CHR ''c'', CHR 0x0A] =
   concat (map (\<lambda>l. l @ [CHR 0x0A]) [''a'', ''b'', '''', ''c''])"
  by simp

lemma abc_lines_ok:
  "\<forall>l \<in> set [''a'', ''b'', '''', ''c'']. CHR 0x0A \<notin> set l \<and> (l = [] \<or> last l \<noteq> CHR 0x0D) \<and>
      length l < MaxScanTokenSize"
  by (simp add: MaxScanTokenSize_def)

text \<open>
  Claim C3, as stated, fails: on the text \<open>a, newline, b, newline, newline, c, newline\<close>
  the blank line is kept, as a pointer to the empty string, and the result has four
  entries.
\<close>

theorem GetRadosPools_keeps_blank_line:
  "GetRadosPools lspools_abc = ([Some ''a'', Some ''b'', Some '''', Some ''c''], None) \<and>
   fst (GetRadosPools lspools_abc) \<noteq> [Some ''a'', Some ''b'', Some ''c'']"
proof -
  have "GetRadosPools_loop (concat (map (\<lambda>l. l @ [CHR 0x0A]) [''a'', ''b'', '''', ''c''])) [] =
        [] @ [''a'', ''b'', '''', ''c'']"
    by (rule GetRadosPools_loop_lines) (rule abc_lines_ok)
  then have "GetRadosPools lspools_abc = ([Some ''a'', Some ''b'', Some '''', Some ''c''], None)"
    by (simp add: GetRadosPools_def lspools_abc_def ConvStrArrayToPtr_map)
  then show ?thesis by simp
qed

text \<open>
  Claim C3, amended. The pool-listing operation splits the tool's plain-text output on
  newlines into one pool name per line, preserving order and keeping blank lines as empty
  names: when the output consists of the lines \<open>lines\<close>, each terminated by a newline,
  free of newlines, not ending in a carriage return and shorter than the scanner's token
  limit, the result is the pointers to exactly these lines, with no error.
\<close>

theorem GetRadosPools_one_name_per_line:
  assumes "Output (Command radosCmd [''lspools'']) =
             (concat (map (\<lambda>l. l @ [CHR 0x0A]) lines), None)"
    and "\<forall>l \<in> set lines. CHR 0x0A \<notin> set l \<and> (l = [] \<or> last l \<noteq> CHR 0x0D) \<and>
           length l < MaxScanTokenSize"
  shows "GetRadosPools Output = (map Some lines, None)"
proof -
  have "GetRadosPools_loop (concat (map (\<lambda>l. l @ [CHR 0x0A]) lines)) [] = [] @ lines"
    using assms(2) by (rule GetRadosPools_loop_lines)
  with assms(1) show ?thesis
    by (simp add: GetRadosPools_def ConvStrArrayToPtr_map)
qed

theorem GetRadosPools_one_name_per_line_witness:
  "lspools_abc (Command radosCmd [''lspools'']) =
     (concat (map (\<lambda>l. l @ [CHR 0x0A]) [''a'', ''b'', '''', ''c'']), None) \<and>
   GetRadosPools lspools_abc = (map Some [''a'', ''b'', '''', ''c''], None)"
proof -
  have out: "lspools_abc (Command radosCmd [''lspools'']) =
     (concat (map (\<lambda>l. l @ [CHR 0x0A]) [''a'', ''b'', '''', ''c'']), None)"
    by (simp add: lspools_abc_def)
  from GetRadosPools_one_name_per_line [of lspools_abc "[''a'', ''b'', '''', ''c'']", OF out abc_lines_ok] out
  show ?thesis by simp
qed

section \<open>Properties of GetMappedRBDs\<close>

text \<open>
  The pair a non-nil entry writes into \<open>devMap\<close>: its volume ID and its device.
\<close>

lemma GetVolumeID_entry:
  "GetVolumeID (Some (rbdMappedEntry.Pool entry)) (Some (rbdMappedEntry.Name entry)) =
     Return (Some (rbdMappedEntry.Pool entry @ ''.'' @ rbdMappedEntry.Name entry))"
  by simp

lemma GetMappedRBDs_loop_result:
  assumes "\<forall>(key, mapped) \<in> set rbdMap. mapped \<noteq> None"
  shows "GetMappedRBDs_loop rbdMap devMap =
     Return (devMap ++ map_of (rev (map (\<lambda>(key, mapped).
        (rbdMappedEntry.Pool (the mapped) @ ''.'' @ rbdMappedEntry.Name (the mapped),
         Device (the mapped))) rbdMap)))"
  using assms
proof (induction rbdMap arbitrary: devMap)
  case Nil
  show ?case by simp
next
  case (Cons a rbdMap)
  obtain key mapped where a: "a = (key, mapped)" by (cases a)
  with Cons.prems obtain entry where m: "mapped = Some entry" by auto
  have rest: "\<forall>(key, mapped) \<in> set rbdMap. mapped \<noteq> None"
    using Cons.prems by simp
  show ?case
    unfolding a m
    by (simp add: Cons.IH [OF rest] map_add_def fun_eq_iff split: option.splits)
qed

text \<open>
  Claim C8, as stated, fails: the loop ranges over a Go map, and the order in which it
  visits the entries is not the order of the tool's table. For the decoded table with the
  entries \<open>0\<close> (device \<open>/dev/rbd0\<close>) and \<open>1\<close> (device \<open>/dev/rbd1\<close>), which both format to
  \<open>a.b.c\<close>, the visiting order \<open>0, 1\<close> keeps \<open>/dev/rbd1\<close> and the visiting order \<open>1, 0\<close>
  keeps \<open>/dev/rbd0\<close>, the earlier entry of the table.
\<close>

theorem GetMappedRBDs_kept_entry_depends_on_range_order:
  "GetMappedRBDs showmapped_ok Unmarshal_mapped_collide =
     Return ([''a.b.c'' \<mapsto> ''/dev/rbd1''], None) \<and>
   GetMappedRBDs showmapped_ok Unmarshal_mapped_collide_swapped =
     Return ([''a.b.c'' \<mapsto> ''/dev/rbd0''], None)"
  by (simp add: GetMappedRBDs_def showmapped_ok_def Unmarshal_mapped_collide_def
      Unmarshal_mapped_collide_swapped_def entry0_def entry1_def)

text \<open>
  Claim C8, amended. When the tool run and the decoding succeed and every entry of the
  decoded table is non-nil, GetMappedRBDs returns a map \<open>devMap\<close> with no error such that:
  its keys are exactly the volume IDs GetVolumeID gives for the entries' pool and image
  name (the tool's own keys do not occur); every value is the device of an entry with that
  volume ID; and among entries with the same volume ID exactly one is kept, the one the
  loop visits last: an entry after which, in the order the loop visits the table, no entry
  with the same volume ID comes has its device stored under its volume ID. The visiting
  order is that of a Go map and is not fixed by the tool's table.
\<close>

theorem GetMappedRBDs_rekeys_last_wins:
  assumes "Output (Command rbdCmd [''showmapped'', formatOpt, jsonArg]) = (out, None)"
    and "Unmarshal out = Inr rbdMap"
    and "\<forall>(key, mapped) \<in> set rbdMap. mapped \<noteq> None"
  shows "\<exists>devMap. GetMappedRBDs Output Unmarshal = Return (devMap, None) \<and>
     (\<forall>volumeID. volumeID \<in> dom devMap \<longleftrightarrow>
        (\<exists>key entry. (key, Some entry) \<in> set rbdMap \<and>
           GetVolumeID (Some (rbdMappedEntry.Pool entry)) (Some (rbdMappedEntry.Name entry)) =
             Return (Some volumeID))) \<and>
     (\<forall>volumeID device. devMap volumeID = Some device \<longrightarrow>
        (\<exists>key entry. (key, Some entry) \<in> set rbdMap \<and>
           GetVolumeID (Some (rbdMappedEntry.Pool entry)) (Some (rbdMappedEntry.Name entry)) =
             Return (Some volumeID) \<and> Device entry = device)) \<and>
     (\<forall>before key entry after volumeID.
        rbdMap = before @ (key, Some entry) # after \<and>
        GetVolumeID (Some (rbdMappedEntry.Pool entry)) (Some (rbdMappedEntry.Name entry)) =
          Return (Some volumeID) \<and>
        (\<forall>(key', mapped') \<in> set after. \<forall>entry'. mapped' = Some entry' \<longrightarrow>
           GetVolumeID (Some (rbdMappedEntry.Pool entry')) (Some (rbdMappedEntry.Name entry')) \<noteq>
             Return (Some volumeID))
        \<longrightarrow> devMap volumeID = Some (Device entry))"
proof -
  let ?kv = "\<lambda>(key, mapped).
        (rbdMappedEntry.Pool (the mapped) @ ''.'' @ rbdMappedEntry.Name (the mapped),
         Device (the mapped))"
  let ?devMap = "map_of (rev (map ?kv rbdMap))"
  have loop: "GetMappedRBDs_loop rbdMap Map.empty = Return ?devMap"
    using GetMappedRBDs_loop_result [OF assms(3), of Map.empty] by simp
  have run: "GetMappedRBDs Output Unmarshal = Return (?devMap, None)"
    using assms(1,2) loop by (simp add: GetMappedRBDs_def)
  have keys: "volumeID \<in> dom ?devMap \<longleftrightarrow>
        (\<exists>key entry. (key, Some entry) \<in> set rbdMap \<and>
           GetVolumeID (Some (rbdMappedEntry.Pool entry)) (Some (rbdMappedEntry.Name entry)) =
             Return (Some volumeID))" for volumeID
  proof
    assume "volumeID \<in> dom ?devMap"
    then have "volumeID \<in> fst ` set (map ?kv rbdMap)"
      by (simp add: dom_map_of_conv_image_fst)
    then obtain key mapped where km: "(key, mapped) \<in> set rbdMap"
      and v: "volumeID = rbdMappedEntry.Pool (the mapped) @ ''.'' @ rbdMappedEntry.Name (the mapped)"
      by auto
    from km assms(3) obtain entry where "mapped = Some entry" by auto
    with km v show "\<exists>key entry. (key, Some entry) \<in> set rbdMap \<and>
           GetVolumeID (Some (rbdMappedEntry.Pool entry)) (Some (rbdMappedEntry.Name entry)) =
             Return (Some volumeID)"
      by auto
  next
    assume "\<exists>key entry. (key, Some entry) \<in> set rbdMap \<and>
           GetVolumeID (Some (rbdMappedEntry.Pool entry)) (Some (rbdMappedEntry.Name entry)) =
             Return (Some volumeID)"
    then obtain key entry where km: "(key, Some entry) \<in> set rbdMap"
      and v: "volumeID = rbdMappedEntry.Pool entry @ ''.'' @ rbdMappedEntry.Name entry"
      by auto
    from km have "(volumeID, Device entry) \<in> set (map ?kv rbdMap)"
      unfolding v set_map by (rule rev_image_eqI) simp
    then have "volumeID \<in> fst ` set (map ?kv rbdMap)"
      by (rule rev_image_eqI) simp
    then show "volumeID \<in> dom ?devMap"
      by (simp add: dom_map_of_conv_image_fst)
  qed
  have vals: "\<exists>key entry. (key, Some entry) \<in> set rbdMap \<and>
           GetVolumeID (Some (rbdMappedEntry.Pool entry)) (Some (rbdMappedEntry.Name entry)) =
             Return (Some volumeID) \<and> Device entry = device"
    if "?devMap volumeID = Some device" for volumeID device
  proof -
    from that have "(volumeID, device) \<in> set (rev (map ?kv rbdMap))"
      by (rule map_of_SomeD)
    then obtain key mapped where km: "(key, mapped) \<in> set rbdMap"
      and v: "volumeID = rbdMappedEntry.Pool (the mapped) @ ''.'' @ rbdMappedEntry.Name (the mapped)"
      and d: "device = Device (the mapped)"
      by auto
    from km assms(3) obtain entry where "mapped = Some entry" by auto
    with km v d show ?thesis by auto
  qed
  have last_wins: "?devMap volumeID = Some (Device entry)"
    if split: "rbdMap = before @ (key, Some entry) # after"
      and v: "GetVolumeID (Some (rbdMappedEntry.Pool entry)) (Some (rbdMappedEntry.Name entry)) =
          Return (Some volumeID)"
      and later: "\<forall>(key', mapped') \<in> set after. \<forall>entry'. mapped' = Some entry' \<longrightarrow>
           GetVolumeID (Some (rbdMappedEntry.Pool entry')) (Some (rbdMappedEntry.Name entry')) \<noteq>
             Return (Some volumeID)"
    for before key entry after volumeID
  proof -
    have vid: "volumeID = rbdMappedEntry.Pool entry @ ''.'' @ rbdMappedEntry.Name entry"
      using v by simp
    have nonnil: "\<forall>(key', mapped') \<in> set after. mapped' \<noteq> None"
      using assms(3) split by auto
    have "volumeID \<notin> fst ` set (map ?kv after)"
    proof
      assume "volumeID \<in> fst ` set (map ?kv after)"
      then obtain key' mapped' where km: "(key', mapped') \<in> set after"
        and v': "volumeID = rbdMappedEntry.Pool (the mapped') @ ''.'' @ rbdMappedEntry.Name (the mapped')"
        by auto
      from km nonnil obtain entry' where "mapped' = Some entry'" by auto
      with km v' later show False by auto
    qed
    then have none: "map_of (rev (map ?kv after)) volumeID = None"
      by (simp add: map_of_eq_None_iff)
    have "?devMap = map_of (rev (map ?kv after) @ ?kv (key, Some entry) # rev (map ?kv before))"
      unfolding split by simp
    then have "?devMap volumeID =
       (map_of (?kv (key, Some entry) # rev (map ?kv before)) ++ map_of (rev (map ?kv after))) volumeID"
      by (simp only: map_of_append)
    also have "\<dots> = map_of (?kv (key, Some entry) # rev (map ?kv before)) volumeID"
      using none by (simp add: map_add_def)
    also have "\<dots> = Some (Device entry)"
      using vid by simp
    finally show ?thesis .
  qed
  have keys': "\<forall>volumeID. volumeID \<in> dom ?devMap \<longleftrightarrow>
        (\<exists>key entry. (key, Some entry) \<in> set rbdMap \<and>
           GetVolumeID (Some (rbdMappedEntry.Pool entry)) (Some (rbdMappedEntry.Name entry)) =
             Return (Some volumeID))"
    using keys by (rule allI)
  have vals': "\<forall>volumeID device. ?devMap volumeID = Some device \<longrightarrow>
        (\<exists>key entry. (key, Some entry) \<in> set rbdMap \<and>
           GetVolumeID (Some (rbdMappedEntry.Pool entry)) (Some (rbdMappedEntry.Name entry)) =
             Return (Some volumeID) \<and> Device entry = device)"
    using vals by (intro allI impI)
  have last_wins': "\<forall>before key entry after volumeID.
        rbdMap = before @ (key, Some entry) # after \<and>
        GetVolumeID (Some (rbdMappedEntry.Pool entry)) (Some (rbdMappedEntry.Name entry)) =
          Return (Some volumeID) \<and>
        (\<forall>(key', mapped') \<in> set after. \<forall>entry'. mapped' = Some entry' \<longrightarrow>
           GetVolumeID (Some (rbdMappedEntry.Pool entry')) (Some (rbdMappedEntry.Name entry')) \<noteq>
             Return (Some volumeID))
        \<longrightarrow> ?devMap volumeID = Some (Device entry)"
  proof (intro allI impI, elim conjE)
    fix before key entry after volumeID
    assume "rbdMap = before @ (key, Some entry) # after"
      and "GetVolumeID (Some (rbdMappedEntry.Pool entry)) (Some (rbdMappedEntry.Name entry)) =
          Return (Some volumeID)"
      and "\<forall>(key', mapped') \<in> set after. \<forall>entry'. mapped' = Some entry' \<longrightarrow>
           GetVolumeID (Some (rbdMappedEntry.Pool entry')) (Some (rbdMappedEntry.Name entry')) \<noteq>
             Return (Some volumeID)"
    then show "?devMap volumeID = Some (Device entry)" by (rule last_wins)
  qed
  show ?thesis
    by (rule exI [of _ ?devMap]) (intro conjI run keys' vals' last_wins')
qed

theorem GetMappedRBDs_rekeys_last_wins_witness:
  "showmapped_ok (Command rbdCmd [''showmapped'', formatOpt, jsonArg]) = (showmapped_text, None) \<and>
   Unmarshal_mapped_collide showmapped_text = Inr [(''0'', Some entry0), (''1'', Some entry1)] \<and>
   GetVolumeID (Some (rbdMappedEntry.Pool entry0)) (Some (rbdMappedEntry.Name entry0)) =
     Return (Some ''a.b.c'') \<and>
   GetVolumeID (Some (rbdMappedEntry.Pool entry1)) (Some (rbdMappedEntry.Name entry1)) =
     Return (Some ''a.b.c'') \<and>
   (\<exists>devMap. GetMappedRBDs showmapped_ok Unmarshal_mapped_collide = Return (devMap, None) \<and>
      dom devMap = {''a.b.c''} \<and> devMap ''a.b.c'' = Some ''/dev/rbd1'')"
proof -
  let ?table = "[(''0'', Some entry0), (''1'', Some entry1)]"
  have out: "showmapped_ok (Command rbdCmd [''showmapped'', formatOpt, jsonArg]) = (showmapped_text, None)"
    by (simp add: showmapped_ok_def)
  have dec: "Unmarshal_mapped_collide showmapped_text = Inr ?table"
    by (simp add: Unmarshal_mapped_collide_def)
  have nonnil: "\<forall>(key, mapped) \<in> set ?table. mapped \<noteq> None"
    by simp
  have v0: "GetVolumeID (Some (rbdMappedEntry.Pool entry0)) (Some (rbdMappedEntry.Name entry0)) =
     Return (Some ''a.b.c'')"
    by (simp add: entry0_def)
  have v1: "GetVolumeID (Some (rbdMappedEntry.Pool entry1)) (Some (rbdMappedEntry.Name entry1)) =
     Return (Some ''a.b.c'')"
    by (simp add: entry1_def)
  from GetMappedRBDs_rekeys_last_wins [of showmapped_ok showmapped_text Unmarshal_mapped_collide
      ?table, OF out dec nonnil]
  obtain devMap where run: "GetMappedRBDs showmapped_ok Unmarshal_mapped_collide = Return (devMap, None)"
    and keys: "\<forall>volumeID. volumeID \<in> dom devMap \<longleftrightarrow>
        (\<exists>key entry. (key, Some entry) \<in> set ?table \<and>
           GetVolumeID (Some (rbdMappedEntry.Pool entry)) (Some (rbdMappedEntry.Name entry)) =
             Return (Some volumeID))"
    and vals: "\<forall>volumeID device. devMap volumeID = Some device \<longrightarrow>
        (\<exists>key entry. (key, Some entry) \<in> set ?table \<and>
           GetVolumeID (Some (rbdMappedEntry.Pool entry)) (Some (rbdMappedEntry.Name entry)) =
             Return (Some volumeID) \<and> Device entry = device)"
    and last_wins: "\<forall>before key entry after volumeID.
        ?table = before @ (key, Some entry) # after \<and>
        GetVolumeID (Some (rbdMappedEntry.Pool entry)) (Some (rbdMappedEntry.Name entry)) =
          Return (Some volumeID) \<and>
        (\<forall>(key', mapped') \<in> set after. \<forall>entry'. mapped' = Some entry' \<longrightarrow>
           GetVolumeID (Some (rbdMappedEntry.Pool entry')) (Some (rbdMappedEntry.Name entry')) \<noteq>
             Return (Some volumeID))
        \<longrightarrow> devMap volumeID = Some (Device entry)"
    by (elim exE conjE) (rule that)
  have "?table = [(''0'', Some entry0)] @ (''1'', Some entry1) # [] \<and>
        GetVolumeID (Some (rbdMappedEntry.Pool entry1)) (Some (rbdMappedEntry.Name entry1)) =
          Return (Some ''a.b.c'') \<and>
        (\<forall>(key', mapped') \<in> set []. \<forall>entry'. mapped' = Some entry' \<longrightarrow>
           GetVolumeID (Some (rbdMappedEntry.Pool entry')) (Some (rbdMappedEntry.Name entry')) \<noteq>
             Return (Some ''a.b.c''))"
    using v1 by simp
  with last_wins [THEN spec, THEN spec, THEN spec, THEN spec, THEN spec,
      of "[(''0'', Some entry0)]" "''1''" entry1 "[]" "''a.b.c''"]
  have "devMap ''a.b.c'' = Some (Device entry1)"
    by (rule mp)
  then have kept: "devMap ''a.b.c'' = Some ''/dev/rbd1''"
    by (simp add: entry1_def)
  then have key_abc: "''a.b.c'' \<in> dom devMap"
    by (rule domI)
  have key_only: "x = ''a.b.c''" if "x \<in> dom devMap" for x
  proof -
    from that obtain device where "devMap x = Some device"
      by (auto simp only: dom_def mem_Collect_eq not_None_eq)
    with vals obtain key entry where
      mem: "(key, Some entry) \<in> set ?table"
      and x: "GetVolumeID (Some (rbdMappedEntry.Pool entry)) (Some (rbdMappedEntry.Name entry)) =
             Return (Some x)"
      by blast
    from mem have "entry = entry0 \<or> entry = entry1" by auto
    then show ?thesis
    proof
      assume "entry = entry0"
      with x v0 have "Return (Some x) = Return (Some ''a.b.c'')" by (simp only:)
      then show ?thesis by (simp only: outcome.inject option.inject)
    next
      assume "entry = entry1"
      with x v1 have "Return (Some x) = Return (Some ''a.b.c'')" by (simp only:)
      then show ?thesis by (simp only: outcome.inject option.inject)
    qed
  qed
  have "dom devMap = {''a.b.c''}"
  proof (intro set_eqI iffI)
    fix x assume "x \<in> dom devMap"
    then have "x = ''a.b.c''" by (rule key_only)
    then show "x \<in> {''a.b.c''}" by (simp only: singleton_iff)
  next
    fix x :: string assume "x \<in> {''a.b.c''}"
    then have "x = ''a.b.c''" by (simp only: singleton_iff)
    with key_abc show "x \<in> dom devMap" by (simp only:)
  qed
  with run kept have "\<exists>devMap. GetMappedRBDs showmapped_ok Unmarshal_mapped_collide =
      Return (devMap, None) \<and> dom devMap = {''a.b.c''} \<and> devMap ''a.b.c'' = Some ''/dev/rbd1''"
    by (intro exI [of _ devMap] conjI)
  with out dec v0 v1 show ?thesis by (intro conjI)
qed

section \<open>Correctness of the derivative matcher\<close>

lemma nullable_lang: "nullable r \<longleftrightarrow> [] \<in> lang r"
  by (induction r) (auto simp: lang_conc_def intro: lang_star_nil)

lemma lang_star_Cons_dest:
  assumes "w \<in> lang_star A" and "w = c # s"
  shows "\<exists>u v. s = u @ v \<and> c # u \<in> A \<and> v \<in> lang_star A"
  using assms
proof (induction arbitrary: s rule: lang_star.induct)
  case lang_star_nil
  then show ?case by simp
next
  case (lang_star_app u v)
  show ?case
  proof (cases u)
    case Nil
    with lang_star_app show ?thesis by simp
  next
    case (Cons a u')
    with lang_star_app.prems have "a = c" and "s = u' @ v" by simp_all
    with Cons lang_star_app.hyps show ?thesis by blast
  qed
qed

lemma lang_star_Cons:
  "c # s \<in> lang_star A \<longleftrightarrow> (\<exists>u v. s = u @ v \<and> c # u \<in> A \<and> v \<in> lang_star A)"
proof
  assume "c # s \<in> lang_star A"
  then show "\<exists>u v. s = u @ v \<and> c # u \<in> A \<and> v \<in> lang_star A"
    by (rule lang_star_Cons_dest) simp
next
  assume "\<exists>u v. s = u @ v \<and> c # u \<in> A \<and> v \<in> lang_star A"
  then obtain u v where "s = u @ v" "c # u \<in> A" "v \<in> lang_star A" by blast
  then show "c # s \<in> lang_star A"
    using lang_star_app [of "c # u" A v] by simp
qed

lemma lang_conc_Cons:
  "c # s \<in> lang_conc A B \<longleftrightarrow>
     ([] \<in> A \<and> c # s \<in> B) \<or> (\<exists>u v. s = u @ v \<and> c # u \<in> A \<and> v \<in> B)"
  unfolding lang_conc_def
  by (auto simp: Cons_eq_append_conv)

lemma lang_deriv: "s \<in> lang (deriv c r) \<longleftrightarrow> c # s \<in> lang r"
proof (induction r arbitrary: s)
  case (OpConcat r1 r2)
  then show ?case
    by (auto simp: lang_conc_Cons nullable_lang) (auto simp: lang_conc_def)
next
  case (OpStar r)
  then show ?case
    by (auto simp: lang_star_Cons) (auto simp: lang_conc_def)
next
  case (OpPlus r)
  then show ?case
    by (auto simp: lang_conc_Cons lang_star_Cons) (auto simp: lang_conc_def)
qed auto

lemma matches_lang: "matches r s \<longleftrightarrow> s \<in> lang r"
  by (induction s arbitrary: r) (simp_all add: nullable_lang lang_deriv)

section \<open>Properties of hasPort\<close>

lemma Contains_char: "Contains s [c] \<longleftrightarrow> c \<in> set s"
  unfolding Contains_def by (induction s) (auto simp: sublist_Cons_right)

lemma of_char_digit_range:
  "(48 \<le> (of_char d :: nat) \<and> (of_char d :: nat) \<le> 57) \<longleftrightarrow> d \<in> set ''0123456789''"
proof -
  have "(48 \<le> (of_char d :: nat) \<and> (of_char d :: nat) \<le> 57) \<longleftrightarrow>
        (of_char d :: nat) \<in> {48, 49, 50, 51, 52, 53, 54, 55, 56, 57}"
    by (simp only: insert_iff empty_iff) arith
  also have "\<dots> \<longleftrightarrow> (of_char d :: nat) \<in> of_char ` set ''0123456789''"
    by simp
  also have "\<dots> \<longleftrightarrow> d \<in> set ''0123456789''"
    by (rule inj_image_mem_iff) (simp add: inj_on_def)
  finally show ?thesis .
qed

lemma inClass_digit:
  "inClass [(CHR ''0'', CHR ''9'')] d \<longleftrightarrow> d \<in> set ''0123456789''"
  using of_char_digit_range [of d] by (simp add: inClass_def)

lemma lang_star_chars:
  "lang_star {[c] | c. P c} = {s. \<forall>c \<in> set s. P c}"
proof (intro set_eqI iffI)
  fix s assume "s \<in> lang_star {[c] | c. P c}"
  then show "s \<in> {s. \<forall>c \<in> set s. P c}"
    by (induction rule: lang_star.induct) auto
next
  fix s assume "s \<in> {s. \<forall>c \<in> set s. P c}"
  then show "s \<in> lang_star {[c] | c. P c}"
  proof (induction s)
    case Nil
    show ?case by (rule lang_star_nil)
  next
    case (Cons a s)
    then have "[a] \<in> {[c] | c. P c}" and "s \<in> lang_star {[c] | c. P c}" by auto
    then have "[a] @ s \<in> lang_star {[c] | c. P c}" by (rule lang_star_app)
    then show ?case by simp
  qed
qed

lemma lang_conc_iff: "s \<in> lang_conc A B \<longleftrightarrow> (\<exists>u v. s = u @ v \<and> u \<in> A \<and> v \<in> B)"
  unfolding lang_conc_def by blast

lemma lang_plus_chars:
  "lang_conc {[c] | c. P c} {s. \<forall>c \<in> set s. P c} = {s. s \<noteq> [] \<and> (\<forall>c \<in> set s. P c)}"
proof (intro set_eqI iffI)
  fix s assume "s \<in> lang_conc {[c] | c. P c} {s. \<forall>c \<in> set s. P c}"
  then show "s \<in> {s. s \<noteq> [] \<and> (\<forall>c \<in> set s. P c)}"
    by (auto simp: lang_conc_def)
next
  fix s assume "s \<in> {s. s \<noteq> [] \<and> (\<forall>c \<in> set s. P c)}"
  then obtain a t where "s = [a] @ t" "P a" "\<forall>c \<in> set t. P c"
    by (cases s) auto
  then show "s \<in> lang_conc {[c] | c. P c} {s. \<forall>c \<in> set s. P c}"
    unfolding lang_conc_def by blast
qed

lemma lang_conc_single: "s \<in> lang_conc {w} B \<longleftrightarrow> (\<exists>v. s = w @ v \<and> v \<in> B)"
  unfolding lang_conc_def by blast

lemma lang_ipv6wPortRX_tail:
  fixes t :: string
  defines "D \<equiv> {s. s \<noteq> [] \<and> (\<forall>c \<in> set s. inClass [(CHR ''0'', CHR ''9'')] c)}"
    and "M \<equiv> {s. \<forall>c \<in> set s. c \<noteq> CHR 0x0A}"
  shows "t \<in> lang_conc M (lang_conc {'']''} (lang_conc {'':''} D)) \<longleftrightarrow>
         (\<exists>mid ds. t = mid @ '']:'' @ ds \<and> mid \<in> M \<and> ds \<in> D)"
proof
  assume "t \<in> lang_conc M (lang_conc {'']''} (lang_conc {'':''} D))"
  then obtain mid v where "t = mid @ v" "mid \<in> M" "v \<in> lang_conc {'']''} (lang_conc {'':''} D)"
    unfolding lang_conc_iff [of t] by blast
  moreover from this(3) obtain ds where "v = '']'' @ '':'' @ ds" "ds \<in> D"
    unfolding lang_conc_single by blast
  ultimately show "\<exists>mid ds. t = mid @ '']:'' @ ds \<and> mid \<in> M \<and> ds \<in> D"
    by auto
next
  assume "\<exists>mid ds. t = mid @ '']:'' @ ds \<and> mid \<in> M \<and> ds \<in> D"
  then obtain mid ds where t: "t = mid @ '']:'' @ ds" and "mid \<in> M" "ds \<in> D" by blast
  then have "'']'' @ '':'' @ ds \<in> lang_conc {'']''} (lang_conc {'':''} D)"
    unfolding lang_conc_single by blast
  with \<open>mid \<in> M\<close> have "mid @ ('']'' @ '':'' @ ds) \<in> lang_conc M (lang_conc {'']''} (lang_conc {'':''} D))"
    unfolding lang_conc_iff [of "mid @ ('']'' @ '':'' @ ds)"] by blast
  with t show "t \<in> lang_conc M (lang_conc {'']''} (lang_conc {'':''} D))" by simp
qed

lemma lang_ipv6wPortRX:
  "s \<in> lang ipv6wPortRX \<longleftrightarrow>
     (\<exists>mid ds. s = ''['' @ mid @ '']:'' @ ds \<and> CHR 0x0A \<notin> set mid \<and>
        ds \<noteq> [] \<and> (\<forall>d \<in> set ds. d \<in> set ''0123456789''))"
  (is "?L \<longleftrightarrow> ?R")
proof -
  let ?D = "{s. s \<noteq> [] \<and> (\<forall>c \<in> set s. inClass [(CHR ''0'', CHR ''9'')] c)}"
  let ?M = "{s. \<forall>c \<in> set s. c \<noteq> CHR 0x0A}"
  have L: "lang ipv6wPortRX =
      lang_conc {''[''} (lang_conc ?M (lang_conc {'']''} (lang_conc {'':''} ?D)))"
    unfolding ipv6wPortRX_def lang.simps lang_star_chars lang_plus_chars ..
  have D: "ds \<in> ?D \<longleftrightarrow> ds \<noteq> [] \<and> (\<forall>d \<in> set ds. d \<in> set ''0123456789'')" for ds
    by (simp only: mem_Collect_eq inClass_digit)
  have M: "mid \<in> ?M \<longleftrightarrow> CHR 0x0A \<notin> set mid" for mid
    by auto
  show ?thesis
  proof
    assume ?L
    then obtain t where s: "s = ''['' @ t"
      and "t \<in> lang_conc ?M (lang_conc {'']''} (lang_conc {'':''} ?D))"
      unfolding L lang_conc_single [of s] by blast
    then obtain mid ds where "t = mid @ '']:'' @ ds" "mid \<in> ?M" "ds \<in> ?D"
      unfolding lang_ipv6wPortRX_tail by blast
    with s have "s = ''['' @ mid @ '']:'' @ ds" "CHR 0x0A \<notin> set mid"
      "ds \<noteq> [] \<and> (\<forall>d \<in> set ds. d \<in> set ''0123456789'')"
      unfolding D M by simp_all
    then show ?R by blast
  next
    assume ?R
    then obtain mid ds where s: "s = ''['' @ (mid @ '']:'' @ ds)"
      and "CHR 0x0A \<notin> set mid" "ds \<noteq> [] \<and> (\<forall>d \<in> set ds. d \<in> set ''0123456789'')"
      by auto
    then have "mid \<in> ?M" "ds \<in> ?D"
      unfolding D M by simp_all
    then have "mid @ '']:'' @ ds \<in> lang_conc ?M (lang_conc {'']''} (lang_conc {'':''} ?D))"
      unfolding lang_ipv6wPortRX_tail by blast
    then show ?L
      unfolding L s lang_conc_single [of _ "''[''"] by blast
  qed
qed

lemma hasPort_iff:
  "hasPort addr \<longleftrightarrow>
     (if HasPrefix addr ''[''
      then \<exists>mid ds. addr = ''['' @ mid @ '']:'' @ ds \<and> CHR 0x0A \<notin> set mid \<and>
             ds \<noteq> [] \<and> (\<forall>d \<in> set ds. d \<in> set ''0123456789'')
      else CHR '':'' \<in> set addr)"
proof (cases "HasPrefix addr ''[''")
  case True
  then show ?thesis
    by (simp only: hasPort_def MatchString_def matches_lang lang_ipv6wPortRX if_True)
next
  case False
  then show ?thesis
    by (simp only: hasPort_def Contains_char if_False)
qed

section \<open>Properties of ParseMonitorAddresses\<close>

lemma HasPrefix_bracket: "HasPrefix addr ''['' \<longleftrightarrow> (\<exists>rest. addr = CHR ''['' # rest)"
  by (cases addr) (auto simp: HasPrefix_def)

lemma hasPort_examples:
  "\<not> hasPort ''[::1]''" "hasPort ''[::1]:6789''" "\<not> hasPort ''10.0.0.1''"
  "hasPort ''10.0.0.1:6789''" "\<not> hasPort ''mon.example.com''"
  by (simp_all add: hasPort_def HasPrefix_def MatchString_def ipv6wPortRX_def inClass_def
      Contains_char)

lemma monHost_examples:
  "monHost n ''[::1]'' = Inr ''::1''"
  "monHost n ''10.0.0.1'' = Inr ''10.0.0.1''"
  "monHost n ''mon.example.com'' = Inr ''mon.example.com''"
  by (simp_all add: monHost_def hasPort_examples HasPrefix_def Trim_def)

lemma monHost_Inl:
  "monHost n mon = Inl err \<longleftrightarrow> hasPort mon \<and> SplitHostPort n mon = Inl err"
  by (auto simp: monHost_def split: sum.splits if_splits)

lemma ParseMonitorAddresses_loop_error_nil:
  "ParseMonitorAddresses_loop n addrs monIps = (ips, Some err) \<Longrightarrow> ips = []"
proof (induction addrs arbitrary: monIps)
  case Nil
  then show ?case by simp
next
  case (Cons mon rest)
  show ?case
  proof (cases "monHost n mon")
    case (Inl e)
    with Cons.prems show ?thesis by simp
  next
    case (Inr host)
    show ?thesis
    proof (cases "ParseIP n host")
      case (Some ip)
      with Inr Cons.prems show ?thesis by (auto dest: Cons.IH)
    next
      case None
      show ?thesis
      proof (cases "LookupIP n host")
        case (Inl e)
        with None Inr Cons.prems show ?thesis by simp
      next
        case (Inr ips')
        with None \<open>monHost n mon = Inr host\<close> Cons.prems show ?thesis
          by (auto dest: Cons.IH split: if_splits)
      qed
    qed
  qed
qed

lemma failing_entry_host:
  assumes "(hasPort mon \<and> (\<exists>err. SplitHostPort n mon = Inl err)) \<or>
         (\<exists>host err. monHost n mon = Inr host \<and> ParseIP n host = None \<and>
            LookupIP n host = Inl err)"
    and "monHost n mon = Inr host"
  shows "ParseIP n host = None \<and> (\<exists>err. LookupIP n host = Inl err)"
  using assms(1)
proof
  assume "hasPort mon \<and> (\<exists>err. SplitHostPort n mon = Inl err)"
  then obtain err where "hasPort mon" "SplitHostPort n mon = Inl err" by blast
  then have "monHost n mon = Inl err" by (simp add: monHost_Inl)
  with assms(2) show ?thesis by simp
next
  assume "\<exists>host err. monHost n mon = Inr host \<and> ParseIP n host = None \<and>
            LookupIP n host = Inl err"
  with assms(2) show ?thesis by auto
qed

lemma ParseMonitorAddresses_loop_fails:
  assumes "mon \<in> set addrs"
    and "(hasPort mon \<and> (\<exists>err. SplitHostPort n mon = Inl err)) \<or>
         (\<exists>host err. monHost n mon = Inr host \<and> ParseIP n host = None \<and>
            LookupIP n host = Inl err)"
  shows "\<exists>err. ParseMonitorAddresses_loop n addrs monIps = ([], Some err)"
  using assms(1)
proof (induction addrs arbitrary: monIps)
  case Nil
  then show ?case by simp
next
  case (Cons a rest)
  show ?case
  proof (cases "monHost n a")
    case (Inl e)
    then show ?thesis by simp
  next
    case (Inr host)
    note host = this
    show ?thesis
    proof (cases "ParseIP n host")
      case (Some ip)
      with host failing_entry_host [OF assms(2), of host] have "a \<noteq> mon"
        by auto
      with Cons.prems have "mon \<in> set rest" by simp
      from Cons.IH [OF this] host Some show ?thesis by simp
    next
      case None
      show ?thesis
      proof (cases "LookupIP n host")
        case (Inl e)
        with None host show ?thesis by simp
      next
        case (Inr ips')
        with host failing_entry_host [OF assms(2), of host] have "a \<noteq> mon"
          by auto
        with Cons.prems have "mon \<in> set rest" by simp
        from Cons.IH [OF this] host None Inr show ?thesis by simp
      qed
    qed
  qed
qed

text \<open>
  Claim C6. If some entry of the input fails host/port splitting (a port is detected and
  SplitHostPort returns an error) or DNS resolution (its host is no IP literal and LookupIP
  returns an error), ParseMonitorAddresses returns an error and the empty result; and
  whenever it returns an error at all, the result holds no address: those of earlier
  entries are discarded.
\<close>

theorem ParseMonitorAddresses_fail_fast:
  "((\<exists>mon \<in> set addrs.
       (hasPort mon \<and> (\<exists>err. SplitHostPort n mon = Inl err)) \<or>
       (\<exists>host err. monHost n mon = Inr host \<and> ParseIP n host = None \<and>
          LookupIP n host = Inl err))
     \<longrightarrow> (\<exists>err. ParseMonitorAddresses n addrs = ([], Some err))) \<and>
   (\<forall>ips err. ParseMonitorAddresses n addrs = (ips, Some err) \<longrightarrow> ips = [])"
  unfolding ParseMonitorAddresses_def
  using ParseMonitorAddresses_loop_fails [of _ addrs n "[]"]
    ParseMonitorAddresses_loop_error_nil [of n addrs "[]"]
  by blast

theorem ParseMonitorAddresses_fail_fast_witness:
  "ParseIP literal_net ''10.0.0.1'' = Some ip4_10_0_0_1 \<and>
   monHost literal_net ''mon.example.com'' = Inr ''mon.example.com'' \<and>
   ParseIP literal_net ''mon.example.com'' = None \<and>
   LookupIP literal_net ''mon.example.com'' = Inl (OtherError ''no such host'') \<and>
   ParseMonitorAddresses literal_net [''10.0.0.1'', ''mon.example.com''] =
     ([], Some (OtherError ''no such host''))"
proof -
  have facts: "ParseIP literal_net ''10.0.0.1'' = Some ip4_10_0_0_1"
    "monHost literal_net ''mon.example.com'' = Inr ''mon.example.com''"
    "ParseIP literal_net ''mon.example.com'' = None"
    "LookupIP literal_net ''mon.example.com'' = Inl (OtherError ''no such host'')"
    by (simp_all add: monHost_examples literal_net_def)
  have "\<exists>mon \<in> set [''10.0.0.1'', ''mon.example.com''].
       (hasPort mon \<and> (\<exists>err. SplitHostPort literal_net mon = Inl err)) \<or>
       (\<exists>host err. monHost literal_net mon = Inr host \<and> ParseIP literal_net host = None \<and>
          LookupIP literal_net host = Inl err)"
    using facts by auto
  with ParseMonitorAddresses_fail_fast [of "[''10.0.0.1'', ''mon.example.com'']" literal_net]
  obtain err where
    "ParseMonitorAddresses literal_net [''10.0.0.1'', ''mon.example.com''] = ([], Some err)"
    by blast
  moreover have "snd (ParseMonitorAddresses literal_net [''10.0.0.1'', ''mon.example.com'']) =
      Some (OtherError ''no such host'')"
    by (simp add: ParseMonitorAddresses_def monHost_examples facts)
  ultimately have "ParseMonitorAddresses literal_net [''10.0.0.1'', ''mon.example.com''] =
     ([], Some (OtherError ''no such host''))"
    by simp
  with facts show ?thesis by simp
qed

text \<open>
  Claim C4, as stated, fails: with the library's result for the literal \<open>::1\<close>, the input
  \<open>[::1]\<close> is normalised to the loopback address and no error is returned.
\<close>

theorem ParseMonitorAddresses_bracket_only_accepted:
  "ParseMonitorAddresses literal_net [''[::1]''] = ([ip6_loopback], None)"
  by (simp add: ParseMonitorAddresses_def monHost_examples literal_net_def)

text \<open>
  Claim C4, amended. The address normalizer accepts a bracketed IPv6 literal without a
  port: for \<open>[::1]\<close> no port is detected, the brackets are stripped, the host \<open>::1\<close> is
  handed to ParseIP, and when ParseIP returns an address for it the result is exactly that
  address with no error.
\<close>

theorem ParseMonitorAddresses_bracket_only:
  "\<not> hasPort ''[::1]'' \<and> monHost n ''[::1]'' = Inr ''::1'' \<and>
   (ParseIP n ''::1'' = Some ip \<longrightarrow> ParseMonitorAddresses n [''[::1]''] = ([ip], None))"
  by (simp add: ParseMonitorAddresses_def monHost_examples hasPort_examples)

theorem ParseMonitorAddresses_bracket_only_witness:
  "ParseIP literal_net ''::1'' = Some ip6_loopback \<and> \<not> hasPort ''[::1]'' \<and>
   monHost literal_net ''[::1]'' = Inr ''::1'' \<and>
   ParseMonitorAddresses literal_net [''[::1]''] = ([ip6_loopback], None)"
proof -
  have p: "ParseIP literal_net ''::1'' = Some ip6_loopback"
    by (simp add: literal_net_def)
  from ParseMonitorAddresses_bracket_only [of literal_net ip6_loopback] p
  show ?thesis by simp
qed

lemma hasPort_bracket_only: "\<not> hasPort (''['' @ h @ '']'')"
proof
  assume "hasPort (''['' @ h @ '']'')"
  then obtain mid ds where eq: "''['' @ h @ '']'' = ''['' @ mid @ '']:'' @ ds"
    and ds: "ds \<noteq> []" "\<forall>d \<in> set ds. d \<in> set ''0123456789''"
    by (auto simp: hasPort_iff HasPrefix_def)
  from eq have "last (''['' @ h @ '']'') = last (''['' @ mid @ '']:'' @ ds)"
    by (simp only:)
  with ds(1) have "last ds = CHR '']''" by simp
  moreover from ds have "last ds \<in> set ''0123456789''" by simp
  ultimately show False by simp
qed

lemma dropWhile_none: "\<forall>x \<in> set xs. \<not> P x \<Longrightarrow> dropWhile P xs = xs"
  by (cases xs) simp_all

lemma Trim_bracketed:
  assumes "CHR ''['' \<notin> set h" and "CHR '']'' \<notin> set h"
  shows "Trim (''['' @ h @ '']'') ''[]'' = h"
proof -
  let ?P = "\<lambda>c. c \<in> set ''[]''"
  have free: "\<forall>x \<in> set h. \<not> ?P x" using assms by auto
  have "dropWhile ?P (''['' @ h @ '']'') = dropWhile ?P (h @ '']'')"
    by simp
  also have "dropWhile ?P (h @ '']'') = (if h = [] then [] else h @ '']'')"
    using free by (cases h) simp_all
  finally have front: "dropWhile ?P (''['' @ h @ '']'') = (if h = [] then [] else h @ '']'')" .
  show ?thesis
  proof (cases "h = []")
    case True
    with front show ?thesis by (simp add: Trim_def)
  next
    case False
    have "\<forall>x \<in> set (rev h). \<not> ?P x" using free by simp
    then have "dropWhile ?P (rev h) = rev h" by (rule dropWhile_none)
    with False front show ?thesis by (simp add: Trim_def)
  qed
qed

lemma monHost_bare:
  assumes "CHR '':'' \<notin> set mon" and "\<not> (\<exists>rest. mon = CHR ''['' # rest)"
  shows "\<not> hasPort mon \<and> monHost n mon = Inr mon"
proof -
  from assms(2) have np: "\<not> HasPrefix mon ''[''" by (simp add: HasPrefix_bracket)
  with assms(1) have "\<not> hasPort mon" by (simp add: hasPort_def Contains_char)
  with np show ?thesis by (simp add: monHost_def)
qed

lemma monHost_ported:
  assumes "hasPort mon" and "SplitHostPort n mon = Inr (host, port)"
    and "\<not> (\<exists>rest. host = CHR ''['' # rest)"
  shows "monHost n mon = Inr host"
proof -
  from assms(3) have "\<not> HasPrefix host ''[''" by (simp add: HasPrefix_bracket)
  with assms(1,2) show ?thesis by (simp add: monHost_def)
qed

lemma monHost_bracket_only:
  assumes "CHR ''['' \<notin> set h" and "CHR '']'' \<notin> set h"
  shows "monHost n (''['' @ h @ '']'') = Inr h"
proof -
  have "HasPrefix (''['' @ h @ '']'') ''[''" by (simp add: HasPrefix_def)
  then show ?thesis
    using hasPort_bracket_only [of h] Trim_bracketed [OF assms]
    by (simp only: monHost_def if_False if_True sum.case)
qed

lemma ParseMonitorAddresses_loop_parsed:
  assumes "\<forall>mon \<in> set addrs. monHost n mon = Inr (hostOf mon) \<and>
             ParseIP n (hostOf mon) = Some (ipOf mon)"
  shows "ParseMonitorAddresses_loop n addrs monIps = (monIps @ map ipOf addrs, None)"
  using assms
proof (induction addrs arbitrary: monIps)
  case Nil
  show ?case by simp
next
  case (Cons mon rest)
  have "ParseMonitorAddresses_loop n (mon # rest) monIps =
        ParseMonitorAddresses_loop n rest (monIps @ [ipOf mon])"
    using Cons.prems by simp
  also have "\<dots> = ((monIps @ [ipOf mon]) @ map ipOf rest, None)"
    using Cons.prems by (intro Cons.IH) simp
  finally show ?case by simp
qed

text \<open>
  Claim C5. For inputs whose host part is a literal IP the normalizer strips port and
  brackets and returns the parsed addresses, in every environment \<open>n\<close> of library
  functions:
  \<^item> an entry without \<open>:\<close> that does not start with \<open>[\<close> has no port and is itself the host;
  \<^item> an entry with a port, which SplitHostPort splits into a host and a port, has that host
    (the port is dropped);
  \<^item> a bracketed entry without a port, \<open>[h]\<close> with \<open>h\<close> free of brackets, has no port and
    the host \<open>h\<close> (the brackets are removed by the code's own trimming);
  \<^item> a single entry whose host ParseIP accepts yields exactly the parsed address;
  \<^item> a list of such entries yields the parsed addresses of all entries, in input order;
  \<^item> so \<open>10.0.0.1\<close> and \<open>10.0.0.1:6789\<close> yield the parsed address of \<open>10.0.0.1\<close>, and
    \<open>[::1]:6789\<close> that of \<open>::1\<close>, given the library's results on these literals.

  Port detection: a string that starts with \<open>[\<close> has a port exactly when it is \<open>[\<close>, any
  text without a newline, \<open>]:\<close> and one or more decimal digits; any other string has a port
  exactly when it contains \<open>:\<close>.
\<close>

theorem ParseMonitorAddresses_literals:
  "(\<forall>mon. CHR '':'' \<notin> set mon \<and> \<not> (\<exists>rest. mon = CHR ''['' # rest) \<longrightarrow>
      \<not> hasPort mon \<and> monHost n mon = Inr mon) \<and>
   (\<forall>mon host port. hasPort mon \<and> SplitHostPort n mon = Inr (host, port) \<and>
      \<not> (\<exists>rest. host = CHR ''['' # rest) \<longrightarrow> monHost n mon = Inr host) \<and>
   (\<forall>h. CHR ''['' \<notin> set h \<and> CHR '']'' \<notin> set h \<longrightarrow>
      \<not> hasPort (''['' @ h @ '']'') \<and> monHost n (''['' @ h @ '']'') = Inr h) \<and>
   (\<forall>mon host ip. monHost n mon = Inr host \<and> ParseIP n host = Some ip \<longrightarrow>
      ParseMonitorAddresses n [mon] = ([ip], None)) \<and>
   ((\<forall>mon \<in> set addrs. monHost n mon = Inr (hostOf mon) \<and>
        ParseIP n (hostOf mon) = Some (ipOf mon)) \<longrightarrow>
      ParseMonitorAddresses n addrs = (map ipOf addrs, None)) \<and>
   (ParseIP n ''10.0.0.1'' = Some ip4 \<longrightarrow>
      ParseMonitorAddresses n [''10.0.0.1''] = ([ip4], None)) \<and>
   (ParseIP n ''10.0.0.1'' = Some ip4 \<and>
    SplitHostPort n ''10.0.0.1:6789'' = Inr (''10.0.0.1'', ''6789'') \<longrightarrow>
      ParseMonitorAddresses n [''10.0.0.1:6789''] = ([ip4], None)) \<and>
   (ParseIP n ''::1'' = Some ip6 \<and>
    SplitHostPort n ''[::1]:6789'' = Inr (''::1'', ''6789'') \<longrightarrow>
      ParseMonitorAddresses n [''[::1]:6789''] = ([ip6], None)) \<and>
   (\<forall>addr. hasPort addr \<longleftrightarrow>
      (if \<exists>rest. addr = CHR ''['' # rest
       then \<exists>mid ds. addr = ''['' @ mid @ '']:'' @ ds \<and> CHR 0x0A \<notin> set mid \<and>
              ds \<noteq> [] \<and> (\<forall>d \<in> set ds. d \<in> set ''0123456789'')
       else CHR '':'' \<in> set addr))"
proof -
  have bare: "\<forall>mon. CHR '':'' \<notin> set mon \<and> \<not> (\<exists>rest. mon = CHR ''['' # rest) \<longrightarrow>
      \<not> hasPort mon \<and> monHost n mon = Inr mon"
    using monHost_bare [of _ n] by blast
  have ported: "\<forall>mon host port. hasPort mon \<and> SplitHostPort n mon = Inr (host, port) \<and>
      \<not> (\<exists>rest. host = CHR ''['' # rest) \<longrightarrow> monHost n mon = Inr host"
    using monHost_ported [of _ n] by blast
  have bracketed: "\<forall>h. CHR ''['' \<notin> set h \<and> CHR '']'' \<notin> set h \<longrightarrow>
      \<not> hasPort (''['' @ h @ '']'') \<and> monHost n (''['' @ h @ '']'') = Inr h"
    using hasPort_bracket_only monHost_bracket_only [of _ n] by blast
  have single: "\<forall>mon host ip. monHost n mon = Inr host \<and> ParseIP n host = Some ip \<longrightarrow>
      ParseMonitorAddresses n [mon] = ([ip], None)"
    by (simp add: ParseMonitorAddresses_def)
  have whole: "(\<forall>mon \<in> set addrs. monHost n mon = Inr (hostOf mon) \<and>
        ParseIP n (hostOf mon) = Some (ipOf mon)) \<longrightarrow>
      ParseMonitorAddresses n addrs = (map ipOf addrs, None)"
    using ParseMonitorAddresses_loop_parsed [of addrs n hostOf ipOf "[]"]
    by (simp add: ParseMonitorAddresses_def)
  have a: "ParseIP n ''10.0.0.1'' = Some ip4 \<longrightarrow>
      ParseMonitorAddresses n [''10.0.0.1''] = ([ip4], None)"
    by (simp add: ParseMonitorAddresses_def monHost_examples)
  have b: "ParseIP n ''10.0.0.1'' = Some ip4 \<and>
    SplitHostPort n ''10.0.0.1:6789'' = Inr (''10.0.0.1'', ''6789'') \<longrightarrow>
      ParseMonitorAddresses n [''10.0.0.1:6789''] = ([ip4], None)"
    by (simp add: ParseMonitorAddresses_def monHost_def hasPort_examples HasPrefix_def)
  have c: "ParseIP n ''::1'' = Some ip6 \<and>
    SplitHostPort n ''[::1]:6789'' = Inr (''::1'', ''6789'') \<longrightarrow>
      ParseMonitorAddresses n [''[::1]:6789''] = ([ip6], None)"
    by (simp add: ParseMonitorAddresses_def monHost_def hasPort_examples HasPrefix_def)
  have d: "\<forall>addr. hasPort addr \<longleftrightarrow>
        (if \<exists>rest. addr = CHR ''['' # rest
         then \<exists>mid ds. addr = ''['' @ mid @ '']:'' @ ds \<and> CHR 0x0A \<notin> set mid \<and>
                ds \<noteq> [] \<and> (\<forall>d \<in> set ds. d \<in> set ''0123456789'')
         else CHR '':'' \<in> set addr)"
    by (simp only: hasPort_iff HasPrefix_bracket) simp
  from bare ported bracketed single whole a b c d show ?thesis by (intro conjI)
qed

theorem ParseMonitorAddresses_literals_witness:
  "ParseIP literal_net ''10.0.0.1'' = Some ip4_10_0_0_1 \<and>
   ParseIP literal_net ''::1'' = Some ip6_loopback \<and>
   SplitHostPort literal_net ''10.0.0.1:6789'' = Inr (''10.0.0.1'', ''6789'') \<and>
   SplitHostPort literal_net ''[::1]:6789'' = Inr (''::1'', ''6789'') \<and>
   ParseMonitorAddresses literal_net [''10.0.0.1''] = ([ip4_10_0_0_1], None) \<and>
   ParseMonitorAddresses literal_net [''10.0.0.1:6789''] = ([ip4_10_0_0_1], None) \<and>
   ParseMonitorAddresses literal_net [''[::1]:6789''] = ([ip6_loopback], None) \<and>
   monHost literal_net ''[::1]'' = Inr ''::1'' \<and>
   ParseMonitorAddresses literal_net [''10.0.0.1'', ''[::1]'', ''10.0.0.1:6789'', ''[::1]:6789''] =
     ([ip4_10_0_0_1, ip6_loopback, ip4_10_0_0_1, ip6_loopback], None) \<and>
   hasPort ''[::1]:6789'' \<and> \<not> hasPort ''[::1]'' \<and> hasPort ''10.0.0.1:6789'' \<and>
   \<not> hasPort ''10.0.0.1''"
proof -
  let ?hostOf = "\<lambda>mon. if mon = ''10.0.0.1'' \<or> mon = ''10.0.0.1:6789'' then ''10.0.0.1'' else ''::1''"
  let ?ipOf = "\<lambda>mon. if mon = ''10.0.0.1'' \<or> mon = ''10.0.0.1:6789'' then ip4_10_0_0_1
                else ip6_loopback"
  let ?addrs = "[''10.0.0.1'', ''[::1]'', ''10.0.0.1:6789'', ''[::1]:6789'']"
  note inst = ParseMonitorAddresses_literals [of literal_net ?addrs ?hostOf ?ipOf
      ip4_10_0_0_1 ip6_loopback]
  have h: "ParseIP literal_net ''10.0.0.1'' = Some ip4_10_0_0_1"
    "ParseIP literal_net ''::1'' = Some ip6_loopback"
    "SplitHostPort literal_net ''10.0.0.1:6789'' = Inr (''10.0.0.1'', ''6789'')"
    "SplitHostPort literal_net ''[::1]:6789'' = Inr (''::1'', ''6789'')"
    by (simp_all add: literal_net_def)
  have three: "ParseMonitorAddresses literal_net [''10.0.0.1''] = ([ip4_10_0_0_1], None)"
    "ParseMonitorAddresses literal_net [''10.0.0.1:6789''] = ([ip4_10_0_0_1], None)"
    "ParseMonitorAddresses literal_net [''[::1]:6789''] = ([ip6_loopback], None)"
    using inst h by blast+
  have "CHR ''['' \<notin> set ''::1'' \<and> CHR '']'' \<notin> set ''::1''" by simp
  with inst have "monHost literal_net (''['' @ ''::1'' @ '']'') = Inr ''::1''" by blast
  then have m2: "monHost literal_net ''[::1]'' = Inr ''::1''" by simp
  have m1: "monHost literal_net ''10.0.0.1'' = Inr ''10.0.0.1''"
    by (rule monHost_examples)
  have "\<not> (\<exists>rest. ''10.0.0.1'' = CHR ''['' # rest)" "\<not> (\<exists>rest. ''::1'' = CHR ''['' # rest)"
    by simp_all
  with inst h hasPort_examples(2,4)
  have m3: "monHost literal_net ''10.0.0.1:6789'' = Inr ''10.0.0.1''"
    and m4: "monHost literal_net ''[::1]:6789'' = Inr ''::1''"
    by blast+
  have "\<forall>mon \<in> set ?addrs. monHost literal_net mon = Inr (?hostOf mon) \<and>
          ParseIP literal_net (?hostOf mon) = Some (?ipOf mon)"
    using m1 m2 m3 m4 h by simp
  with inst have list: "ParseMonitorAddresses literal_net ?addrs = (map ?ipOf ?addrs, None)"
    by blast
  have "map ?ipOf ?addrs = [ip4_10_0_0_1, ip6_loopback, ip4_10_0_0_1, ip6_loopback]"
    by simp
  with list have list': "ParseMonitorAddresses literal_net ?addrs =
     ([ip4_10_0_0_1, ip6_loopback, ip4_10_0_0_1, ip6_loopback], None)"
    by (simp only:)
  from h three m2 list' hasPort_examples(1-4) show ?thesis by (intro conjI)
qed

end
